theory Spec2Isabelle
  imports Complex_Main "HOL-Library.Word"
begin

section \<open>FlowLK: tracking interest points with Lucas-Kanade optical flow\<close>

text \<open>
  The module of \<^verbatim>\<open>doc/ProgrammerInvFlowLK.dox\<close> is a Python class with a constructor
  and one method, \<^verbatim>\<open>process\<close>, which the camera engine calls once per video frame.
  The image operations, the corner detector and the tracker belong to OpenCV; the class
  only decides which of them to call and keeps four attributes between calls.
\<close>

subsection \<open>Data\<close>

text \<open>
  A point is a pair of coordinates; the class never computes with them. A colour is
  one row of the table \<^verbatim>\<open>self.color\<close>, turned into a list by \<^verbatim>\<open>tolist()\<close>.
\<close>

type_synonym point = "real \<times> real"

type_synonym colour = "int list"

text \<open>The two parameter dictionaries of the constructor.\<close>

record feature_params =
  maxCorners :: nat
  qualityLevel :: real
  minDistance :: nat
  blockSize :: nat

record lk_params =
  winSize :: "nat \<times> nat"
  maxLevel :: nat
  criteria :: "nat \<times> nat \<times> real"

text \<open>
  The exceptions the method can meet: an attribute read before it was ever assigned,
  and an index outside an array (a boolean selection whose length differs from the
  array's, or a row of the colour table that does not exist).
\<close>

datatype error = AttributeError | IndexError

text \<open>
  The OpenCV and numpy calls of the method, taken as parameters. Images of type \<open>'i\<close>
  are colour frames, images of type \<open>'g\<close> are grayscale. \<open>corners\<close> is the detector's
  natural output, before the cap \<open>maxCorners\<close> is applied. The tracker returns
  \<open>None\<close> for Python's \<^verbatim>\<open>p1 is None\<close>, and otherwise the arrays \<^verbatim>\<open>p1\<close> and
  \<^verbatim>\<open>st\<close> (the third result, \<^verbatim>\<open>err\<close>, is never read).
\<close>

record ('i, 'g) opencv =
  cvtColor :: "'i \<Rightarrow> 'g"
  corners :: "'g \<Rightarrow> feature_params \<Rightarrow> point list"
  calcOpticalFlowPyrLK ::
    "'g \<Rightarrow> 'g \<Rightarrow> point list \<Rightarrow> lk_params \<Rightarrow> (point list \<times> nat list) option"
  zeros_like :: "'i \<Rightarrow> 'i"
  line :: "'i \<Rightarrow> point \<Rightarrow> point \<Rightarrow> colour \<Rightarrow> nat \<Rightarrow> 'i"
  circle :: "'i \<Rightarrow> point \<Rightarrow> nat \<Rightarrow> colour \<Rightarrow> int \<Rightarrow> 'i"
  add :: "'i \<Rightarrow> 'i \<Rightarrow> 'i"
  putText :: "'i \<Rightarrow> string \<Rightarrow> 'i"

text \<open>
  The attributes of an instance. \<^verbatim>\<open>old_gray\<close>, \<^verbatim>\<open>p0\<close> and \<^verbatim>\<open>mask\<close> do not exist
  until \<^verbatim>\<open>process\<close> assigns them, and \<^verbatim>\<open>del self.old_gray\<close> removes the first
  again: an absent attribute is \<open>None\<close>.
\<close>

record ('i, 'g) FlowLK =
  feature_params :: feature_params
  lk_params :: lk_params
  color :: "colour list"
  old_gray :: "'g option"
  p0 :: "point list option"
  mask :: "'i option"

subsection \<open>The constructor\<close>

text \<open>
  \<^verbatim>\<open>np.random.randint(0,255,(100,3))\<close> draws a table of 100 rows and 3 columns with
  entries from 0 to 254. The random source is the parameter \<open>randint\<close>, which gives the
  draw for a row and a column.
\<close>

definition FlowLK_init :: "(nat \<Rightarrow> nat \<Rightarrow> int) \<Rightarrow> ('i, 'g) FlowLK" where
  "FlowLK_init randint =
     \<lparr> feature_params =
         \<lparr> maxCorners = 100, qualityLevel = 3 / 10, minDistance = 7, blockSize = 7 \<rparr>,
       lk_params = \<lparr> winSize = (15, 15), maxLevel = 2, criteria = (3, 10, 3 / 100) \<rparr>,
       color = map (\<lambda>i. map (\<lambda>j. randint i j mod 255) [0..<3]) [0..<100],
       old_gray = None,
       p0 = None,
       mask = None \<rparr>"

subsection \<open>The collaborators\<close>

text \<open>
  Modelled from the spec: the Feature Detector \<^verbatim>\<open>cv2.goodFeaturesToTrack\<close> is a
  function of OpenCV and not of this repository. The spec gives its contract: a
  sequence of 0 to \<open>maxCount\<close> points, never null, of length
  \<open>min(maxCount, the detector's natural output)\<close>.
\<close>

definition goodFeaturesToTrack ::
    "('i, 'g) opencv \<Rightarrow> 'g \<Rightarrow> feature_params \<Rightarrow> point list" where
  "goodFeaturesToTrack cv gray fp = take (maxCorners fp) (corners cv gray fp)"

text \<open>
  \<^verbatim>\<open>xs[st==1]\<close>: the rows of \<open>xs\<close> whose flag is 1, in their order. numpy raises
  IndexError when the boolean array and the indexed array differ in length.
\<close>

definition select :: "'a list \<Rightarrow> nat list \<Rightarrow> error + 'a list" where
  "select xs st =
     (if length st \<noteq> length xs then Inl IndexError
      else Inr (map fst (filter (\<lambda>(x, v). v = 1) (zip xs st))))"

text \<open>
  The drawing loop \<^verbatim>\<open>for i,(new,old) in enumerate(zip(good_new, good_old))\<close>:
  one line into the mask and one filled circle onto the frame per pair, both in the
  colour of row \<open>i\<close>. \<^verbatim>\<open>self.color[i]\<close> raises IndexError past the last row.
\<close>

fun draw_tracks ::
    "('i, 'g) opencv \<Rightarrow> colour list \<Rightarrow> nat \<Rightarrow> (point \<times> point) list \<Rightarrow> 'i \<Rightarrow> 'i
      \<Rightarrow> error + ('i \<times> 'i)" where
  "draw_tracks cv col i [] m frame = Inr (m, frame)"
| "draw_tracks cv col i ((new, old) # rest) m frame =
     (if i < length col
      then draw_tracks cv col (Suc i) rest
             (line cv m new old (col ! i) 2) (circle cv frame new 5 (col ! i) (- 1))
      else Inl IndexError)"

subsection \<open>The method process\<close>

text \<open>
  \<open>process cv self frame fps\<close> is one call of the method on the frame that
  \<^verbatim>\<open>inframe.getCvBGR()\<close> returned; \<open>fps\<close> is the string that \<^verbatim>\<open>self.timer.stop()\<close>
  returns. The result is the exception raised, or the instance after the call with the
  image handed to \<^verbatim>\<open>outframe.sendCv\<close>.
\<close>

definition process ::
    "('i, 'g) opencv \<Rightarrow> ('i, 'g) FlowLK \<Rightarrow> 'i \<Rightarrow> string
      \<Rightarrow> error + (('i, 'g) FlowLK \<times> 'i)" where
  "process cv self frame fps =
     (case old_gray self of
        None \<Rightarrow>
          (let gray = cvtColor cv frame;
               pts = goodFeaturesToTrack cv gray (feature_params self)
           in Inr (self\<lparr>old_gray := Some gray, p0 := Some pts,
                        mask := Some (zeros_like cv frame)\<rparr>,
                   putText cv frame fps))
      | Some og \<Rightarrow>
          (let frame_gray = cvtColor cv frame in
           case p0 self of
             None \<Rightarrow> Inl AttributeError
           | Some pts \<Rightarrow>
               (case calcOpticalFlowPyrLK cv og frame_gray pts (lk_params self) of
                  None \<Rightarrow>
                    (case mask self of
                       None \<Rightarrow> Inl AttributeError
                     | Some m \<Rightarrow>
                         Inr (self\<lparr>old_gray := None\<rparr>, putText cv (add cv frame m) fps))
                | Some (p1, st) \<Rightarrow>
                    (case select p1 st of
                       Inl e \<Rightarrow> Inl e
                     | Inr good_new \<Rightarrow>
                         (case select pts st of
                            Inl e \<Rightarrow> Inl e
                          | Inr good_old \<Rightarrow>
                              (case mask self of
                                 None \<Rightarrow> Inl AttributeError
                               | Some m \<Rightarrow>
                                   (case draw_tracks cv (color self) 0
                                           (zip good_new good_old) m frame of
                                      Inl e \<Rightarrow> Inl e
                                    | Inr (m', frame') \<Rightarrow>
                                        Inr (self\<lparr>mask := Some m',
                                                  old_gray := Some frame_gray,
                                                  p0 := Some good_new\<rparr>,
                                             putText cv (add cv frame' m') fps))))))))"

text \<open>
  The engine's main loop: one call of \<open>process\<close> per frame, each on the instance the
  call before left; an exception ends the run. The result is the last instance and the
  images sent, in order.
\<close>

fun run ::
    "('i, 'g) opencv \<Rightarrow> ('i, 'g) FlowLK \<Rightarrow> ('i \<times> string) list
      \<Rightarrow> error + (('i, 'g) FlowLK \<times> 'i list)" where
  "run cv self [] = Inr (self, [])"
| "run cv self ((frame, fps) # rest) =
     (case process cv self frame fps of
        Inl e \<Rightarrow> Inl e
      | Inr (self', out) \<Rightarrow>
          (case run cv self' rest of
             Inl e \<Rightarrow> Inl e
           | Inr (self'', outs) \<Rightarrow> Inr (self'', out # outs)))"

subsection \<open>The state machine of the spec\<close>

text \<open>
  The spec reads the presence of \<^verbatim>\<open>self.old_gray\<close> as a state: without it the
  controller is uninitialised, with it the controller is tracking.
\<close>

datatype TrackState = UNINITIALIZED | TRACKING

definition track_state :: "('i, 'g) FlowLK \<Rightarrow> TrackState" where
  "track_state self = (case old_gray self of None \<Rightarrow> UNINITIALIZED | Some _ \<Rightarrow> TRACKING)"

text \<open>
  The draw calls of one tracking step, as triples of new location, old location and
  colour: the pairs of the drawing loop, each with the table row of its position.
\<close>

definition tracks :: "colour list \<Rightarrow> point list \<Rightarrow> point list \<Rightarrow> (point \<times> point \<times> colour) list" where
  "tracks col good_new good_old =
     map (\<lambda>(i, new, old). (new, old, col ! i)) (enumerate 0 (zip good_new good_old))"

definition draw_line :: "('i, 'g) opencv \<Rightarrow> 'i \<Rightarrow> point \<times> point \<times> colour \<Rightarrow> 'i" where
  "draw_line cv m t = (case t of (new, old, c) \<Rightarrow> line cv m new old c 2)"

definition draw_circle :: "('i, 'g) opencv \<Rightarrow> 'i \<Rightarrow> point \<times> point \<times> colour \<Rightarrow> 'i" where
  "draw_circle cv frame t = (case t of (new, old, c) \<Rightarrow> circle cv frame new 5 c (- 1))"

text \<open>The surviving rows of an array under the flags \<open>st\<close>.\<close>

definition good :: "'a list \<Rightarrow> nat list \<Rightarrow> 'a list" where
  "good xs st = map fst (filter (\<lambda>(x, v). v = 1) (zip xs st))"

text \<open>
  The position that the row of index \<open>i\<close> has after the selection with the flags
  \<open>st\<close>: the number of selected rows before it.
\<close>

definition new_index :: "nat list \<Rightarrow> nat \<Rightarrow> nat" where
  "new_index st i = length (filter (\<lambda>v. v = 1) (take i st))"

subsection \<open>Following one point through a run of tracking steps\<close>

text \<open>
  \<open>kept cv k self frames\<close>: on each of the frames, in turn, the tracker gives a
  result aligned with the point set and reports the points of index 0 to \<open>k\<close> found;
  that is, the point of index \<open>k\<close> survives every step and no point before it is
  dropped.
\<close>

fun kept :: "('i, 'g) opencv \<Rightarrow> nat \<Rightarrow> ('i, 'g) FlowLK \<Rightarrow> ('i \<times> string) list \<Rightarrow> bool" where
  "kept cv k self [] = True"
| "kept cv k self ((frame, fps) # rest) =
     (case (old_gray self, p0 self) of
        (Some og, Some pts) \<Rightarrow>
          (case calcOpticalFlowPyrLK cv og (cvtColor cv frame) pts (lk_params self) of
             None \<Rightarrow> False
           | Some (p1, st) \<Rightarrow>
               length p1 = length pts \<and> length st = length pts \<and> k < length pts \<and>
               take (Suc k) st = replicate (Suc k) 1 \<and>
               (case process cv self frame fps of
                  Inl e \<Rightarrow> False
                | Inr (self', out) \<Rightarrow> kept cv k self' rest))
      | _ \<Rightarrow> False)"

text \<open>
  The draw calls of each step of a run, step by step: for a frame on which the
  tracker gives a result, the triples that the drawing loop of \<open>process\<close> goes through.
\<close>

fun step_tracks :: "('i, 'g) opencv \<Rightarrow> ('i, 'g) FlowLK \<Rightarrow> 'i \<Rightarrow> (point \<times> point \<times> colour) list" where
  "step_tracks cv self frame =
     (case (old_gray self, p0 self) of
        (Some og, Some pts) \<Rightarrow>
          (case calcOpticalFlowPyrLK cv og (cvtColor cv frame) pts (lk_params self) of
             None \<Rightarrow> []
           | Some (p1, st) \<Rightarrow> tracks (color self) (good p1 st) (good pts st))
      | _ \<Rightarrow> [])"

fun run_tracks ::
    "('i, 'g) opencv \<Rightarrow> ('i, 'g) FlowLK \<Rightarrow> ('i \<times> string) list
      \<Rightarrow> (point \<times> point \<times> colour) list list" where
  "run_tracks cv self [] = []"
| "run_tracks cv self ((frame, fps) # rest) =
     (case process cv self frame fps of
        Inl e \<Rightarrow> []
      | Inr (self', out) \<Rightarrow> step_tracks cv self frame # run_tracks cv self' rest)"

text \<open>
  \<open>trail k c p tss\<close>: in every step of \<open>tss\<close> the draw call of index \<open>k\<close> has the
  colour \<open>c\<close> and starts where the one of the step before ended, the first at \<open>p\<close>.
\<close>

fun trail :: "nat \<Rightarrow> colour \<Rightarrow> point \<Rightarrow> (point \<times> point \<times> colour) list list \<Rightarrow> bool" where
  "trail k c p [] = True"
| "trail k c p (ts # tss) =
     (k < length ts \<and> fst (snd (ts ! k)) = p \<and> snd (snd (ts ! k)) = c \<and>
      trail k c (fst (ts ! k)) tss)"

text \<open>
  \<open>sent_with cv frames tss outs\<close>: the image sent for each frame is the frame with the
  circles of that step's draw calls on it, a mask added and the frame-rate text.
\<close>

fun sent_with ::
    "('i, 'g) opencv \<Rightarrow> ('i \<times> string) list \<Rightarrow> (point \<times> point \<times> colour) list list
      \<Rightarrow> 'i list \<Rightarrow> bool" where
  "sent_with cv [] [] [] = True"
| "sent_with cv ((frame, fps) # frames) (ts # tss) (out # outs) =
     ((\<exists>m. out = putText cv (add cv (foldl (draw_circle cv) frame ts) m) fps) \<and>
      sent_with cv frames tss outs)"
| "sent_with cv frames tss outs = False"

subsection \<open>A symbolic OpenCV for concrete runs\<close>

text \<open>
  Images as the expressions that built them: the frame number \<open>n\<close> of the camera, and
  one constructor per OpenCV call. The detector and the tracker of a scenario are
  given as functions.
\<close>

datatype img =
    Frame nat
  | Gray img
  | ZerosLike img
  | Line img point point colour nat
  | Circle img point nat colour int
  | Add img img
  | PutText img string

definition symbolic ::
    "(img \<Rightarrow> point list) \<Rightarrow> (img \<Rightarrow> img \<Rightarrow> point list \<Rightarrow> (point list \<times> nat list) option)
      \<Rightarrow> (img, img) opencv" where
  "symbolic detect track =
     \<lparr> cvtColor = Gray,
       corners = (\<lambda>gray fp. detect gray),
       calcOpticalFlowPyrLK = (\<lambda>og gray pts lk. track og gray pts),
       zeros_like = ZerosLike,
       line = Line,
       circle = Circle,
       add = Add,
       putText = PutText \<rparr>"

text \<open>A random source whose table has the rows \<open>[0,1,2]\<close>, \<open>[3,4,5]\<close>, and so on.\<close>

definition rows :: "nat \<Rightarrow> nat \<Rightarrow> int" where
  "rows i j = int (3 * i + j)"

text \<open>
  The scenario of the spec: two points detected on frame 1; on frame 2 the first moves
  to (11,11) and the second is lost; on frame 3 the tracker fails altogether.
\<close>

definition scenario :: "(img, img) opencv" where
  "scenario =
     symbolic (\<lambda>gray. [(10, 10), (20, 20)])
       (\<lambda>og gray pts.
          if gray = Gray (Frame 2) then Some ([(11, 11), (0, 0)], [1, 0]) else None)"

text \<open>
  A second scenario: both points are tracked on frame 2; on frame 3 the first point is
  lost and the second is tracked on.
\<close>

definition first_lost :: "(img, img) opencv" where
  "first_lost =
     symbolic (\<lambda>gray. [(10, 10), (20, 20)])
       (\<lambda>og gray pts.
          if gray = Gray (Frame 2) then Some ([(11, 11), (21, 21)], [1, 1])
          else if gray = Gray (Frame 3) then Some ([(12, 12), (22, 22)], [0, 1])
          else None)"

text \<open>
  A third scenario: the detector finds nothing on frame 1 and one point on every later
  frame; the tracker, given no points, returns no points.
\<close>

definition nothing_found :: "(img, img) opencv" where
  "nothing_found =
     symbolic (\<lambda>gray. if gray = Gray (Frame 1) then [] else [(5, 5)])
       (\<lambda>og gray pts. if pts = [] then Some ([], []) else None)"

text \<open>
  A fourth scenario: as the third, but the tracker, given no points, reports total
  failure.
\<close>

definition nothing_tracked :: "(img, img) opencv" where
  "nothing_tracked =
     symbolic (\<lambda>gray. if gray = Gray (Frame 1) then [] else [(5, 5)])
       (\<lambda>og gray pts. None)"

text \<open>The instance of the first scenario after frame 1, and after frame 2.\<close>

definition acquired :: "(img, img) FlowLK" where
  "acquired =
     (FlowLK_init rows)\<lparr>old_gray := Some (Gray (Frame 1)),
                         p0 := Some [(10, 10), (20, 20)],
                         mask := Some (ZerosLike (Frame 1))\<rparr>"

definition tracked :: "(img, img) FlowLK" where
  "tracked =
     (FlowLK_init rows)\<lparr>old_gray := Some (Gray (Frame 2)),
                         p0 := Some [(11, 11)],
                         mask := Some (Line (ZerosLike (Frame 1)) (11, 11) (10, 10) [0, 1, 2] 2)\<rparr>"

text \<open>The instance of the second scenario after frame 2.\<close>

definition both_tracked :: "(img, img) FlowLK" where
  "both_tracked =
     (FlowLK_init rows)\<lparr>old_gray := Some (Gray (Frame 2)),
                         p0 := Some [(11, 11), (21, 21)],
                         mask := Some (Line (Line (ZerosLike (Frame 1)) (11, 11) (10, 10) [0, 1, 2] 2)
                                         (21, 21) (20, 20) [3, 4, 5] 2)\<rparr>"

text \<open>
  A fifth scenario: both points are tracked on frame 2 and on frame 3, and the tracker
  fails on every other frame.
\<close>

definition all_found :: "(img, img) opencv" where
  "all_found =
     symbolic (\<lambda>gray. [(10, 10), (20, 20)])
       (\<lambda>og gray pts.
          if gray = Gray (Frame 2) then Some ([(11, 11), (21, 21)], [1, 1])
          else if gray = Gray (Frame 3) then Some ([(12, 12), (22, 22)], [1, 1])
          else None)"

text \<open>The tracker's contract: a result is aligned with the points it was given.\<close>

definition aligned :: "('i, 'g) opencv \<Rightarrow> bool" where
  "aligned cv =
     (\<forall>og gray pts lk p1 st.
        calcOpticalFlowPyrLK cv og gray pts lk = Some (p1, st) \<longrightarrow>
        length p1 = length pts \<and> length st = length pts)"

text \<open>
  What holds of every instance that calls of \<open>process\<close> can produce: while the
  reference frame exists, the points and the mask exist too, and there are no more
  points than the detector was allowed to return.
\<close>

definition tracking_ok :: "('i, 'g) FlowLK \<Rightarrow> bool" where
  "tracking_ok self =
     (case old_gray self of
        None \<Rightarrow> True
      | Some og \<Rightarrow>
          (case (p0 self, mask self) of
             (Some pts, Some m) \<Rightarrow> length pts \<le> maxCorners (feature_params self)
           | _ \<Rightarrow> False))"

text \<open>
  The point set of the spec is the attribute \<^verbatim>\<open>p0\<close> while the reference frame exists.
  \<^verbatim>\<open>del self.old_gray\<close> leaves \<^verbatim>\<open>p0\<close> behind, but the next call assigns it before
  anything reads it.
\<close>

definition PointSet :: "('i, 'g) FlowLK \<Rightarrow> point list option" where
  "PointSet self = (case old_gray self of None \<Rightarrow> None | Some og \<Rightarrow> p0 self)"

text \<open>
  The colours that belong to the current points: the drawing loop gives the point of
  index \<open>i\<close> the row \<open>i\<close> of the table, so these are the first rows, one per point.
\<close>

definition point_colours :: "('i, 'g) FlowLK \<Rightarrow> colour list" where
  "point_colours self =
     (case p0 self of None \<Rightarrow> [] | Some pts \<Rightarrow> take (length pts) (color self))"

section \<open>The Arduino sketch that blinks on a recognised object\<close>

text \<open>
  \<^verbatim>\<open>doc/snip/ardublink.C\<close> reads one line from the serial port per iteration of
  \<^verbatim>\<open>loop()\<close>, cuts it into tokens with \<^verbatim>\<open>strtok\<close>, runs a small state machine
  over the tokens and drives the LED pin.
\<close>

type_synonym byte = "8 word"

datatype level = LOW | HIGH

definition INLEN :: nat where
  "INLEN = 256"

definition CATEGORY :: string where
  "CATEGORY = ''computer_keyboard''"

text \<open>
  \<^verbatim>\<open>Stream::readBytesUntil(terminator, buffer, length)\<close> of the Arduino core stores
  the incoming bytes up to the terminator, which it drops, and at most \<open>length\<close> of
  them; \<open>incoming\<close> is what arrives before the timeout. The result is the bytes stored,
  the function's return value is their number.
\<close>

definition readBytesUntil :: "char \<Rightarrow> nat \<Rightarrow> char list \<Rightarrow> char list" where
  "readBytesUntil terminator len incoming =
     take len (takeWhile (\<lambda>c. c \<noteq> terminator) incoming)"

text \<open>The C string that starts a buffer: its bytes up to the first NUL.\<close>

definition c_str :: "char list \<Rightarrow> string" where
  "c_str buf = takeWhile (\<lambda>c. c \<noteq> CHR 0x00) buf"

text \<open>The delimiters \<^verbatim>\<open>" \r\n"\<close> of both calls of \<^verbatim>\<open>strtok\<close>.\<close>

definition delim :: "char \<Rightarrow> bool" where
  "delim c = (c \<in> set [CHR '' '', CHR 0x0D, CHR 0x0A])"

text \<open>
  \<^verbatim>\<open>strtok\<close> on the text that is left: skip delimiters; at the end of the string
  there is no token; otherwise the token runs to the next delimiter, which is
  overwritten by NUL, and the text left starts behind it. The sketch writes into a
  token only at \<^verbatim>\<open>tok[i]\<close>, inside the token, so the text left is never changed.
\<close>

definition strtok :: "string \<Rightarrow> (string \<times> string) option" where
  "strtok s =
     (case dropWhile delim s of
        [] \<Rightarrow> None
      | c # cs \<Rightarrow>
          Some (takeWhile (\<lambda>c. \<not> delim c) (c # cs),
                drop 1 (dropWhile (\<lambda>c. \<not> delim c) (c # cs))))"

text \<open>\<^verbatim>\<open>while (i >= 0 && tok[i] != ':') --i;\<close>\<close>

function find_colon :: "string \<Rightarrow> int \<Rightarrow> int" where
  "find_colon tok i =
     (if i \<ge> 0 \<and> tok ! nat i \<noteq> CHR '':'' then find_colon tok (i - 1) else i)"
  by pat_completeness auto
termination
  by (relation "measure (\<lambda>(tok, i). nat (i + 1))") auto

text \<open>
  The body of the \<^verbatim>\<open>switch (state)\<close> for one token. In state 1,
  \<^verbatim>\<open>tok[i] = '\0'\<close> ends the token at the colon found.
\<close>

definition switch_state :: "int \<Rightarrow> string \<Rightarrow> int" where
  "switch_state state tok =
     (if state = 0 then (if tok = ''DO'' then 1 else 1000)
      else if state = 1 then
        (let i = find_colon tok (int (length tok) - 1);
             tok' = (if i \<ge> 0 then take (nat i) tok else tok)
         in if tok' = CATEGORY then 2 else state)
      else state)"

text \<open>\<^verbatim>\<open>while (tok) { switch ...; tok = strtok(0, " \r\n"); }\<close>\<close>

function while_tok :: "int \<Rightarrow> string \<Rightarrow> int" where
  "while_tok state rest =
     (case strtok rest of
        None \<Rightarrow> state
      | Some (tok, rest') \<Rightarrow> while_tok (switch_state state tok) rest')"
  by pat_completeness auto
termination
proof (relation "measure (\<lambda>(state, rest). length rest)")
  show "wf (measure (\<lambda>(state, rest). length rest))" by simp
next
  fix state :: int and rest x2 tok rest'
  assume "strtok rest = Some x2" "(tok, rest') = x2"
  then obtain c cs where d: "dropWhile delim rest = c # cs"
    and r: "rest' = drop 1 (dropWhile (\<lambda>c. \<not> delim c) (c # cs))"
    by (auto simp: strtok_def split: list.splits)
  have "length rest' \<le> length (c # cs) - 1"
    unfolding r using length_dropWhile_le [of "\<lambda>c. \<not> delim c" "c # cs"] by simp
  also have "\<dots> < length (dropWhile delim rest)" by (simp add: d)
  also have "\<dots> \<le> length rest" by (rule length_dropWhile_le)
  finally show "((switch_state state tok, rest'), (state, rest))
      \<in> measure (\<lambda>(state, rest). length rest)"
    by simp
qed

text \<open>
  One iteration of \<^verbatim>\<open>loop()\<close>: \<open>instr\<close> is the buffer as the iteration before left
  it, \<open>incoming\<close> the bytes on the serial port; the result is the level written to the
  LED pin. The number of bytes read is kept in a \<^verbatim>\<open>byte\<close>.
\<close>

definition loop :: "char list \<Rightarrow> char list \<Rightarrow> level" where
  "loop instr incoming =
     (let received = readBytesUntil (CHR 0x0A) INLEN incoming;
          len = (of_nat (length received) :: byte);
          instr' = (received @ drop (length received) instr)[unat len := CHR 0x00];
          state = while_tok 0 (c_str instr')
      in if state = 2 then LOW else HIGH)"

subsection \<open>The claim in its own words\<close>

text \<open>
  The tokens of a line, separated by the characters that \<open>sep\<close> holds of: skip
  separators, take the characters up to the next separator, go on behind them.
\<close>

function tokens_of :: "(char \<Rightarrow> bool) \<Rightarrow> string \<Rightarrow> string list" where
  "tokens_of sep s =
     (case dropWhile sep s of
        [] \<Rightarrow> []
      | c # cs \<Rightarrow>
          takeWhile (\<lambda>c. \<not> sep c) (c # cs) #
          tokens_of sep (dropWhile (\<lambda>c. \<not> sep c) cs))"
  by pat_completeness auto
termination
proof (relation "measure (\<lambda>(sep, s). length s)")
  show "wf (measure (\<lambda>(sep, s). length s))" by simp
next
  fix sep :: "char \<Rightarrow> bool" and s :: string and c cs
  assume d: "dropWhile sep s = c # cs"
  have "length (dropWhile (\<lambda>c. \<not> sep c) cs) \<le> length cs" by (rule length_dropWhile_le)
  also have "\<dots> < length (dropWhile sep s)" by (simp add: d)
  also have "\<dots> \<le> length s" by (rule length_dropWhile_le)
  finally show "((sep, dropWhile (\<lambda>c. \<not> sep c) cs), (sep, s)) \<in> measure (\<lambda>(sep, s). length s)"
    by simp
qed

text \<open>White space as C's \<^verbatim>\<open>isspace\<close> has it: space, tab, line feed, vertical tab,
  form feed and carriage return.\<close>

definition whitespace :: "char \<Rightarrow> bool" where
  "whitespace c = (c \<in> set [CHR '' '', CHR 0x09, CHR 0x0A, CHR 0x0B, CHR 0x0C, CHR 0x0D])"

text \<open>A token truncated at its last colon, when it has one.\<close>

definition truncated :: "string \<Rightarrow> string" where
  "truncated tok =
     (if CHR '':'' \<in> set tok
      then rev (tl (dropWhile (\<lambda>c. c \<noteq> CHR '':'') (rev tok)))
      else tok)"

text \<open>
  The condition of the claim: the first token is exactly \<^verbatim>\<open>DO\<close> and one of the
  tokens after it, truncated, is the category.
\<close>

definition led_on :: "(char \<Rightarrow> bool) \<Rightarrow> string \<Rightarrow> bool" where
  "led_on sep msg =
     (case tokens_of sep msg of
        [] \<Rightarrow> False
      | first # others \<Rightarrow> first = ''DO'' \<and> list_ex (\<lambda>tok. truncated tok = CATEGORY) others)"

section \<open>Properties of one call\<close>

lemma process_first:
  assumes "old_gray self = None"
  shows "process cv self frame fps =
           Inr (self\<lparr>old_gray := Some (cvtColor cv frame),
                     p0 := Some (goodFeaturesToTrack cv (cvtColor cv frame) (feature_params self)),
                     mask := Some (zeros_like cv frame)\<rparr>,
                putText cv frame fps)"
  using assms by (simp add: process_def Let_def)

lemma process_lost:
  assumes "old_gray self = Some og" "p0 self = Some pts" "mask self = Some m"
    and "calcOpticalFlowPyrLK cv og (cvtColor cv frame) pts (lk_params self) = None"
  shows "process cv self frame fps =
           Inr (self\<lparr>old_gray := None\<rparr>, putText cv (add cv frame m) fps)"
  using assms by (simp add: process_def Let_def)

lemma draw_tracks_fold:
  "i + length prs \<le> length col \<Longrightarrow>
   draw_tracks cv col i prs m frame =
     Inr (foldl (draw_line cv) m (map (\<lambda>(k, new, old). (new, old, col ! k)) (enumerate i prs)),
          foldl (draw_circle cv) frame
            (map (\<lambda>(k, new, old). (new, old, col ! k)) (enumerate i prs)))"
proof (induction prs arbitrary: i m frame)
  case Nil
  then show ?case by simp
next
  case (Cons pr prs)
  obtain new old where pr: "pr = (new, old)" by (cases pr)
  from Cons.prems have "i < length col" "Suc i + length prs \<le> length col" by simp_all
  with Cons.IH [of "Suc i"] show ?case
    by (simp add: pr draw_line_def draw_circle_def)
qed

lemma length_good: "length (good xs st) \<le> length xs"
proof -
  have "length (filter (\<lambda>(x, v). v = 1) (zip xs st)) \<le> length (zip xs st)"
    by (rule length_filter_le)
  then show ?thesis by (simp add: good_def)
qed

lemma select_good: "length st = length xs \<Longrightarrow> select xs st = Inr (good xs st)"
  by (simp add: select_def good_def)

lemma process_partial:
  assumes "old_gray self = Some og" "p0 self = Some pts" "mask self = Some m"
    and "calcOpticalFlowPyrLK cv og (cvtColor cv frame) pts (lk_params self) = Some (p1, st)"
    and "length p1 = length pts" "length st = length pts"
    and "length pts \<le> length (color self)"
  shows "process cv self frame fps =
           Inr (self\<lparr>mask := Some (foldl (draw_line cv) m
                                     (tracks (color self) (good p1 st) (good pts st))),
                     old_gray := Some (cvtColor cv frame),
                     p0 := Some (good p1 st)\<rparr>,
                putText cv
                  (add cv
                     (foldl (draw_circle cv) frame
                        (tracks (color self) (good p1 st) (good pts st)))
                     (foldl (draw_line cv) m
                        (tracks (color self) (good p1 st) (good pts st))))
                  fps)"
proof -
  have "length (zip (good p1 st) (good pts st)) \<le> length p1"
    using length_good [of p1 st] by simp
  with assms have "0 + length (zip (good p1 st) (good pts st)) \<le> length (color self)"
    by simp
  then have "draw_tracks cv (color self) 0 (zip (good p1 st) (good pts st)) m frame =
      Inr (foldl (draw_line cv) m (tracks (color self) (good p1 st) (good pts st)),
           foldl (draw_circle cv) frame (tracks (color self) (good p1 st) (good pts st)))"
    unfolding tracks_def by (rule draw_tracks_fold)
  moreover have "select p1 st = Inr (good p1 st)" "select pts st = Inr (good pts st)"
    using assms by (simp_all add: select_good)
  ultimately show ?thesis
    using assms by (simp add: process_def Let_def)
qed

lemma process_static:
  assumes "process cv self frame fps = Inr (self', out)"
  shows "color self' = color self \<and> feature_params self' = feature_params self \<and>
         lk_params self' = lk_params self"
  using assms
  by (auto simp: process_def Let_def split: option.splits sum.splits prod.splits)

lemma select_Inr: "select xs st = Inr ys \<Longrightarrow> length st = length xs \<and> ys = good xs st"
  by (auto simp: select_def good_def split: if_splits)

lemma p0_dead:
  assumes "old_gray self = None"
  shows "process cv (self\<lparr>p0 := q, mask := r\<rparr>) frame fps = process cv self frame fps"
  using assms by (simp add: process_def Let_def)

lemma overwrite_eq:
  fixes a b :: "('i, 'g) FlowLK"
  assumes "color a = color b" "feature_params a = feature_params b"
    and "lk_params a = lk_params b"
  shows "a\<lparr>old_gray := x, p0 := y, mask := z\<rparr> = b\<lparr>old_gray := x, p0 := y, mask := z\<rparr>"
  using assms by (cases a, cases b) simp

section \<open>What every reachable instance satisfies\<close>

lemma process_ok:
  assumes "tracking_ok self" and "process cv self frame fps = Inr (self', out)"
  shows "tracking_ok self'"
proof (cases "old_gray self")
  case None
  with assms(2) have "self' = self\<lparr>old_gray := Some (cvtColor cv frame),
      p0 := Some (goodFeaturesToTrack cv (cvtColor cv frame) (feature_params self)),
      mask := Some (zeros_like cv frame)\<rparr>"
    by (simp add: process_first)
  then show ?thesis
    by (simp add: tracking_ok_def goodFeaturesToTrack_def)
next
  case (Some og)
  with assms(1) obtain pts m where pm: "p0 self = Some pts" "mask self = Some m"
      and le: "length pts \<le> maxCorners (feature_params self)"
    by (auto simp: tracking_ok_def split: option.splits)
  show ?thesis
  proof (cases "calcOpticalFlowPyrLK cv og (cvtColor cv frame) pts (lk_params self)")
    case None
    with Some pm assms(2) have "self' = self\<lparr>old_gray := None\<rparr>"
      by (simp add: process_lost)
    then show ?thesis by (simp add: tracking_ok_def)
  next
    case (Some r)
    obtain p1 st where r: "r = (p1, st)" by (cases r)
    from assms(2) \<open>old_gray self = Some og\<close> pm Some r
    obtain m' where "self' = self\<lparr>mask := Some m', old_gray := Some (cvtColor cv frame),
        p0 := Some (good p1 st)\<rparr>" and "length st = length p1" "length st = length pts"
      by (auto simp: process_def Let_def dest!: select_Inr split: sum.splits prod.splits)
    moreover have "length (good p1 st) \<le> length p1" by (rule length_good)
    ultimately show ?thesis using le by (simp add: tracking_ok_def)
  qed
qed

lemma run_static:
  "run cv self frames = Inr (self', outs) \<Longrightarrow>
     color self' = color self \<and> feature_params self' = feature_params self \<and>
     lk_params self' = lk_params self \<and> length outs = length frames"
proof (induction frames arbitrary: self outs)
  case Nil
  then show ?case by simp
next
  case (Cons a frames)
  obtain frame fps where a: "a = (frame, fps)" by (cases a)
  from Cons.prems a obtain mid out outs' where
      p: "process cv self frame fps = Inr (mid, out)" and
      r: "run cv mid frames = Inr (self', outs')" and o: "outs = out # outs'"
    by (auto split: sum.splits prod.splits)
  from Cons.IH [OF r] process_static [OF p] o show ?case by simp
qed

lemma run_ok:
  "tracking_ok self \<Longrightarrow> run cv self frames = Inr (self', outs) \<Longrightarrow> tracking_ok self'"
proof (induction frames arbitrary: self outs)
  case Nil
  then show ?case by simp
next
  case (Cons a frames)
  obtain frame fps where a: "a = (frame, fps)" by (cases a)
  from Cons.prems a obtain mid out outs' where
      p: "process cv self frame fps = Inr (mid, out)" and
      r: "run cv mid frames = Inr (self', outs')"
    by (auto split: sum.splits prod.splits)
  from Cons.IH [OF process_ok [OF Cons.prems(1) p] r] show ?case .
qed

lemma init_ok: "tracking_ok (FlowLK_init randint)"
  by (simp add: tracking_ok_def FlowLK_init_def)

lemma init_fields:
  "length (color (FlowLK_init randint)) = 100"
  "maxCorners (feature_params (FlowLK_init randint)) = 100"
  "old_gray (FlowLK_init randint) = None"
  by (simp_all add: FlowLK_init_def)

lemma process_total:
  assumes "tracking_ok self" "aligned cv"
    and "maxCorners (feature_params self) \<le> length (color self)"
  shows "\<exists>self' out. process cv self frame fps = Inr (self', out)"
proof (cases "old_gray self")
  case None
  then show ?thesis by (simp add: process_first)
next
  case (Some og)
  with assms(1) obtain pts m where pm: "p0 self = Some pts" "mask self = Some m"
      and le: "length pts \<le> maxCorners (feature_params self)"
    by (auto simp: tracking_ok_def split: option.splits)
  show ?thesis
  proof (cases "calcOpticalFlowPyrLK cv og (cvtColor cv frame) pts (lk_params self)")
    case None
    with Some pm show ?thesis by (simp add: process_lost)
  next
    case (Some r)
    obtain p1 st where r: "r = (p1, st)" by (cases r)
    with Some assms(2) have "length p1 = length pts" "length st = length pts"
      unfolding aligned_def by blast+
    with process_partial [OF \<open>old_gray self = Some og\<close> pm Some [unfolded r]] le assms(3)
    show ?thesis by simp
  qed
qed

lemma run_total:
  assumes "aligned cv"
  shows "tracking_ok self \<Longrightarrow> maxCorners (feature_params self) \<le> length (color self) \<Longrightarrow>
         \<exists>self' outs. run cv self frames = Inr (self', outs)"
proof (induction frames arbitrary: self)
  case Nil
  then show ?case by simp
next
  case (Cons a frames)
  obtain frame fps where a: "a = (frame, fps)" by (cases a)
  from process_total [OF Cons.prems(1) assms Cons.prems(2)]
  obtain mid out where p: "process cv self frame fps = Inr (mid, out)" by blast
  from process_ok [OF Cons.prems(1) p] process_static [OF p] Cons.prems(2)
  have "tracking_ok mid" "maxCorners (feature_params mid) \<le> length (color mid)" by simp_all
  from Cons.IH [OF this] obtain self' outs where "run cv mid frames = Inr (self', outs)"
    by blast
  with p a show ?case by simp
qed

lemma reachable_tracking:
  assumes "run cv (FlowLK_init randint) frames = Inr (self, outs)"
    and "old_gray self = Some og"
  shows "\<exists>pts m. p0 self = Some pts \<and> mask self = Some m \<and> length pts \<le> 100 \<and>
           length (color self) = 100 \<and> maxCorners (feature_params self) = 100"
proof -
  from run_ok [OF init_ok assms(1)] have "tracking_ok self" .
  moreover from run_static [OF assms(1)]
  have "length (color self) = 100" "maxCorners (feature_params self) = 100"
    by (simp_all add: init_fields)
  ultimately show ?thesis
    using assms(2) by (auto simp: tracking_ok_def split: option.splits)
qed

section \<open>Selecting the surviving points and drawing them\<close>

lemma good_Cons:
  "good (x # xs) (v # st) = (if v = 1 then x # good xs st else good xs st)"
  by (simp add: good_def)

lemma good_Nil: "good [] st = []" "good xs [] = []"
  by (simp_all add: good_def)

lemma good_empty: "good [] [] = []"
  by (simp add: good_def)

lemma good_nths:
  "length st = length xs \<Longrightarrow> good xs st = nths xs {i. i < length st \<and> st ! i = 1}"
proof (induction st xs rule: list_induct2)
  case Nil
  then show ?case by (simp add: good_Nil)
next
  case (Cons v st x xs)
  have "{j. Suc j < length (v # st) \<and> (v # st) ! Suc j = 1} = {i. i < length st \<and> st ! i = 1}"
    by simp
  with Cons.IH show ?case
    by (simp add: good_Cons nths_Cons)
qed

lemma length_good_flags:
  "length st = length xs \<Longrightarrow> length (good xs st) = length (filter (\<lambda>v. v = 1) st)"
  by (induction st xs rule: list_induct2) (simp_all add: good_Nil good_Cons)

lemma good_kept:
  "length st = length xs \<Longrightarrow> take (Suc k) st = replicate (Suc k) 1 \<Longrightarrow> k < length xs \<Longrightarrow>
   k < length (good xs st) \<and> good xs st ! k = xs ! k"
proof (induction xs arbitrary: st k)
  case Nil
  then show ?case by simp
next
  case (Cons x xs)
  then obtain v st' where st: "st = v # st'" by (cases st) auto
  with Cons.prems have v: "v = 1" and t: "take k st' = replicate k 1"
    and l: "length st' = length xs" by simp_all
  show ?case
  proof (cases k)
    case 0
    with st v show ?thesis by (simp add: good_Cons)
  next
    case (Suc j)
    with t Cons.prems(3) have "take (Suc j) st' = replicate (Suc j) 1" "j < length xs"
      by simp_all
    from Cons.IH [OF l this] st v Suc show ?thesis by (simp add: good_Cons)
  qed
qed

lemma tracks_news:
  "length good_new = length good_old \<Longrightarrow> map fst (tracks col good_new good_old) = good_new"
proof -
  assume l: "length good_new = length good_old"
  have "map fst (tracks col good_new good_old) =
        map (fst \<circ> snd) (enumerate 0 (zip good_new good_old))"
    by (simp add: tracks_def comp_def case_prod_unfold)
  also have "\<dots> = map fst (map snd (enumerate 0 (zip good_new good_old)))"
    by (simp only: map_map)
  also have "\<dots> = good_new" using l by (simp only: map_snd_enumerate map_fst_zip)
  finally show ?thesis .
qed

lemma tracks_olds:
  "length good_new = length good_old \<Longrightarrow>
   map (fst \<circ> snd) (tracks col good_new good_old) = good_old"
proof -
  assume l: "length good_new = length good_old"
  have "map (fst \<circ> snd) (tracks col good_new good_old) =
        map (snd \<circ> snd) (enumerate 0 (zip good_new good_old))"
    by (simp add: tracks_def comp_def case_prod_unfold)
  also have "\<dots> = map snd (map snd (enumerate 0 (zip good_new good_old)))"
    by (simp only: map_map)
  also have "\<dots> = good_old" using l by (simp only: map_snd_enumerate map_snd_zip)
  finally show ?thesis .
qed

lemma tracks_nth:
  "k < length good_new \<Longrightarrow> k < length good_old \<Longrightarrow>
   tracks col good_new good_old ! k = (good_new ! k, good_old ! k, col ! k)"
  by (simp add: tracks_def nth_enumerate_eq)

lemma length_tracks:
  "length (tracks col good_new good_old) = min (length good_new) (length good_old)"
  by (simp add: tracks_def)

lemma tracks_empty: "tracks col [] [] = []"
  by (simp add: tracks_def)

lemma take_two: "2 \<le> length xs \<Longrightarrow> take (Suc (Suc 0)) xs = [xs ! 0, xs ! Suc 0]"
  by (cases xs; cases "tl xs") auto

lemma take_one: "1 \<le> length xs \<Longrightarrow> take (Suc 0) xs = [xs ! 0]"
  by (cases xs) auto

lemma trail_kept:
  assumes "old_gray self = Some og" "p0 self = Some pts" "mask self = Some m"
    and "length pts \<le> length (color self)" and "kept cv k self frames"
  shows "length (run_tracks cv self frames) = length frames \<and>
         trail k (color self ! k) (pts ! k) (run_tracks cv self frames) \<and>
         (\<exists>self' outs. run cv self frames = Inr (self', outs) \<and>
            mask self' = Some (foldl (draw_line cv) m (concat (run_tracks cv self frames))) \<and>
            sent_with cv frames (run_tracks cv self frames) outs)"
  using assms
proof (induction frames arbitrary: self og pts m)
  case Nil
  then show ?case by simp
next
  case (Cons a frames)
  obtain frame fps where a: "a = (frame, fps)" by (cases a)
  from Cons.prems(5) a Cons.prems(1,2) obtain p1 st where
      t: "calcOpticalFlowPyrLK cv og (cvtColor cv frame) pts (lk_params self) = Some (p1, st)"
    by (auto split: option.splits)
  with Cons.prems(5) a Cons.prems(1,2) have
      l: "length p1 = length pts" "length st = length pts" and k: "k < length pts"
      and f: "take (Suc k) st = replicate (Suc k) 1"
    by simp_all
  let ?ts = "tracks (color self) (good p1 st) (good pts st)"
  let ?self' = "self\<lparr>mask := Some (foldl (draw_line cv) m ?ts),
                     old_gray := Some (cvtColor cv frame), p0 := Some (good p1 st)\<rparr>"
  have p: "process cv self frame fps =
      Inr (?self', putText cv (add cv (foldl (draw_circle cv) frame ?ts)
                                  (foldl (draw_line cv) m ?ts)) fps)"
    by (rule process_partial [OF Cons.prems(1-3) t l Cons.prems(4)])
  with Cons.prems(5) a Cons.prems(1,2) t have k': "kept cv k ?self' frames"
    by simp
  have gn: "k < length (good p1 st)" "good p1 st ! k = p1 ! k"
    using good_kept [of st p1 k] l f k by simp_all
  have go: "k < length (good pts st)" "good pts st ! k = pts ! k"
    using good_kept [of st pts k] l f k by simp_all
  have le: "length (good p1 st) \<le> length (color ?self')"
    using length_good [of p1 st] l Cons.prems(4) by simp
  from Cons.IH [of ?self' "cvtColor cv frame" "good p1 st" "foldl (draw_line cv) m ?ts",
      OF _ _ _ le k']
  have IH: "length (run_tracks cv ?self' frames) = length frames"
    "trail k (color self ! k) (p1 ! k) (run_tracks cv ?self' frames)"
    "\<exists>self'' outs. run cv ?self' frames = Inr (self'', outs) \<and>
        mask self'' = Some (foldl (draw_line cv) (foldl (draw_line cv) m ?ts)
                              (concat (run_tracks cv ?self' frames))) \<and>
        sent_with cv frames (run_tracks cv ?self' frames) outs"
    using gn by simp_all
  have s: "step_tracks cv self frame = ?ts"
    using Cons.prems(1,2) t by simp
  have r: "run_tracks cv self (a # frames) = ?ts # run_tracks cv ?self' frames"
    using a p s by simp
  from IH(3) obtain self'' outs where
    "run cv ?self' frames = Inr (self'', outs)"
    "mask self'' = Some (foldl (draw_line cv) m (concat (run_tracks cv self (a # frames))))"
    "sent_with cv frames (run_tracks cv ?self' frames) outs"
    unfolding r by auto
  with p a r have "\<exists>self' outs. run cv self (a # frames) = Inr (self', outs) \<and>
      mask self' = Some (foldl (draw_line cv) m (concat (run_tracks cv self (a # frames)))) \<and>
      sent_with cv (a # frames) (run_tracks cv self (a # frames)) outs"
    by auto
  moreover have "trail k (color self ! k) (pts ! k) (run_tracks cv self (a # frames))"
    unfolding r using IH(2) gn go by (simp add: tracks_nth length_tracks)
  ultimately show ?case using IH(1) r by simp
qed

lemma good_append:
  "length xs = length st \<Longrightarrow> good (xs @ ys) (st @ st') = good xs st @ good ys st'"
  by (simp add: good_def)

lemma good_index:
  assumes "length st = length xs" and "i < length xs" and "st ! i = 1"
  shows "new_index st i < length (good xs st) \<and> good xs st ! new_index st i = xs ! i"
proof -
  have x: "xs = take i xs @ xs ! i # drop (Suc i) xs"
    using assms(2) by (rule id_take_nth_drop)
  have t: "st = take i st @ st ! i # drop (Suc i) st"
    using assms(1,2) by (simp add: id_take_nth_drop)
  have l: "length (take i xs) = length (take i st)"
    using assms(1) by simp
  have "good xs st =
      good (take i xs @ xs ! i # drop (Suc i) xs) (take i st @ st ! i # drop (Suc i) st)"
    using x t by simp
  also have "\<dots> = good (take i xs) (take i st) @
      good (xs ! i # drop (Suc i) xs) (st ! i # drop (Suc i) st)"
    using l by (rule good_append)
  also have "good (xs ! i # drop (Suc i) xs) (st ! i # drop (Suc i) st) =
      xs ! i # good (drop (Suc i) xs) (drop (Suc i) st)"
    using assms(3) by (simp add: good_Cons)
  finally have g: "good xs st =
      good (take i xs) (take i st) @ xs ! i # good (drop (Suc i) xs) (drop (Suc i) st)" .
  have n: "length (good (take i xs) (take i st)) = new_index st i"
    using l by (simp add: length_good_flags new_index_def)
  show ?thesis
    by (subst (1 2) g) (simp add: n [symmetric] nth_append)
qed

lemma new_index_le: "new_index st i \<le> i"
proof -
  have "new_index st i \<le> length (take i st)"
    unfolding new_index_def by (rule length_filter_le)
  then show ?thesis by simp
qed

lemma new_index_less:
  assumes "i \<le> length st"
  shows "new_index st i < i \<longleftrightarrow> (\<exists>l<i. st ! l \<noteq> 1)"
proof -
  let ?ys = "take i st"
  have len: "length ?ys = i" using assms by simp
  have "length (filter (\<lambda>v. v = 1) ?ys) + length (filter (\<lambda>v. \<not> v = 1) ?ys) = length ?ys"
    by (rule sum_length_filter_compl)
  then have "new_index st i < i \<longleftrightarrow> 0 < length (filter (\<lambda>v. \<not> v = 1) ?ys)"
    unfolding new_index_def len by linarith
  also have "\<dots> \<longleftrightarrow> filter (\<lambda>v. \<not> v = 1) ?ys \<noteq> []"
    by (rule length_greater_0_conv)
  also have "\<dots> \<longleftrightarrow> (\<exists>y\<in>set ?ys. y \<noteq> 1)"
    by (simp add: filter_empty_conv)
  also have "\<dots> \<longleftrightarrow> (\<exists>l<i. st ! l \<noteq> 1)"
  proof (intro iffI)
    assume "\<exists>y\<in>set ?ys. y \<noteq> 1"
    then obtain l where "l < length ?ys" and "?ys ! l \<noteq> 1"
      by (metis in_set_conv_nth)
    then have "l < i" "st ! l \<noteq> 1" using len by simp_all
    then show "\<exists>l<i. st ! l \<noteq> 1" by blast
  next
    assume "\<exists>l<i. st ! l \<noteq> 1"
    then obtain l where l: "l < i" "st ! l \<noteq> 1" by blast
    then have "?ys ! l \<in> set ?ys" using len by (intro nth_mem) simp
    moreover have "?ys ! l = st ! l" using l by simp
    ultimately show "\<exists>y\<in>set ?ys. y \<noteq> 1" using l(2) by auto
  qed
  finally show ?thesis .
qed

lemma tracks_map:
  assumes "length good_new = length good_old"
  shows "tracks col good_new good_old =
           map (\<lambda>i. (good_new ! i, good_old ! i, col ! i)) [0..<length good_new]"
  using assms by (intro nth_equalityI) (simp_all add: length_tracks tracks_nth)

section \<open>The scenarios, run\<close>

lemma rows_table: "color (FlowLK_init rows :: (img, img) FlowLK) ! 0 = [0, 1, 2]"
  "color (FlowLK_init rows :: (img, img) FlowLK) ! 1 = [3, 4, 5]"
  by (simp_all add: FlowLK_init_def rows_def upt_rec)

lemma scenario_step1:
  "process scenario (FlowLK_init rows) (Frame 1) ''fps'' = Inr (acquired, PutText (Frame 1) ''fps'')"
  by (simp add: process_first init_fields acquired_def goodFeaturesToTrack_def)
     (simp add: scenario_def symbolic_def)

lemma scenario_run1:
  "run scenario (FlowLK_init rows) [(Frame 1, ''fps'')] = Inr (acquired, [PutText (Frame 1) ''fps''])"
  using scenario_step1 by simp

lemma acquired_fields:
  "old_gray acquired = Some (Gray (Frame 1))" "p0 acquired = Some [(10, 10), (20, 20)]"
  "mask acquired = Some (ZerosLike (Frame 1))" "color acquired = color (FlowLK_init rows :: (img, img) FlowLK)"
  "lk_params acquired = lk_params (FlowLK_init rows :: (img, img) FlowLK)"
  by (simp_all add: acquired_def)

lemma scenario_track2:
  "calcOpticalFlowPyrLK scenario (Gray (Frame 1)) (cvtColor scenario (Frame 2))
     [(10, 10), (20, 20)] lk = Some ([(11, 11), (0, 0)], [1, 0])"
  by (simp add: scenario_def symbolic_def)

lemma scenario_step2:
  "process scenario acquired (Frame 2) ''fps'' =
     Inr (tracked,
          PutText (Add (Circle (Frame 2) (11, 11) 5 [0, 1, 2] (- 1))
                       (Line (ZerosLike (Frame 1)) (11, 11) (10, 10) [0, 1, 2] 2)) ''fps'')"
proof -
  have "process scenario acquired (Frame 2) ''fps'' =
      Inr (acquired\<lparr>mask := Some (foldl (draw_line scenario) (ZerosLike (Frame 1))
              (tracks (color acquired) (good [(11, 11), (0, 0)] [1, 0])
                 (good [(10, 10), (20, 20)] [1, 0]))),
             old_gray := Some (cvtColor scenario (Frame 2)),
             p0 := Some (good [(11, 11), (0, 0)] [1, 0])\<rparr>,
           putText scenario
             (add scenario
                (foldl (draw_circle scenario) (Frame 2)
                   (tracks (color acquired) (good [(11, 11), (0, 0)] [1, 0])
                      (good [(10, 10), (20, 20)] [1, 0])))
                (foldl (draw_line scenario) (ZerosLike (Frame 1))
                   (tracks (color acquired) (good [(11, 11), (0, 0)] [1, 0])
                      (good [(10, 10), (20, 20)] [1, 0]))))
             ''fps'')"
    by (rule process_partial [OF acquired_fields(1-3) scenario_track2])
       (simp_all add: acquired_fields init_fields)
  also have "\<dots> = Inr (tracked,
          PutText (Add (Circle (Frame 2) (11, 11) 5 [0, 1, 2] (- 1))
                       (Line (ZerosLike (Frame 1)) (11, 11) (10, 10) [0, 1, 2] 2)) ''fps'')"
    by (simp add: good_def tracks_def enumerate_eq_zip draw_line_def draw_circle_def
          acquired_fields rows_table)
       (simp add: acquired_def tracked_def scenario_def symbolic_def)
  finally show ?thesis .
qed

lemma scenario_run2:
  "run scenario (FlowLK_init rows) [(Frame 1, ''fps''), (Frame 2, ''fps'')] =
     Inr (tracked,
          [PutText (Frame 1) ''fps'',
           PutText (Add (Circle (Frame 2) (11, 11) 5 [0, 1, 2] (- 1))
                        (Line (ZerosLike (Frame 1)) (11, 11) (10, 10) [0, 1, 2] 2)) ''fps''])"
  using scenario_step1 scenario_step2 by simp

lemma tracked_fields:
  "old_gray tracked = Some (Gray (Frame 2))" "p0 tracked = Some [(11, 11)]"
  "mask tracked = Some (Line (ZerosLike (Frame 1)) (11, 11) (10, 10) [0, 1, 2] 2)"
  "color tracked = color (FlowLK_init rows :: (img, img) FlowLK)"
  "lk_params tracked = lk_params (FlowLK_init rows :: (img, img) FlowLK)"
  by (simp_all add: tracked_def)

lemma scenario_track3:
  "calcOpticalFlowPyrLK scenario (Gray (Frame 2)) (cvtColor scenario (Frame 3)) [(11, 11)] lk = None"
  by (simp add: scenario_def symbolic_def)

lemma scenario_detect:
  "goodFeaturesToTrack scenario (cvtColor scenario (Frame 1)) (feature_params (FlowLK_init rows :: (img, img) FlowLK))
     = [(10, 10), (20, 20)]"
  by (simp add: goodFeaturesToTrack_def scenario_def symbolic_def FlowLK_init_def)

lemma scenario_ops:
  "putText scenario = PutText" "add scenario = Add" "line scenario = Line"
  "zeros_like scenario = ZerosLike" "cvtColor scenario = Gray" "circle scenario = Circle"
  by (simp_all add: scenario_def symbolic_def)

lemma first_lost_run1:
  "run first_lost (FlowLK_init rows) [(Frame 1, ''fps'')] =
     Inr (acquired, [PutText (Frame 1) ''fps''])"
  by (simp add: process_first init_fields acquired_def goodFeaturesToTrack_def)
     (simp add: first_lost_def symbolic_def)

lemma first_lost_run2:
  "run first_lost (FlowLK_init rows) [(Frame 1, ''fps''), (Frame 2, ''fps'')] =
   Inr ((FlowLK_init rows)\<lparr>old_gray := Some (Gray (Frame 2)),
          p0 := Some [(11, 11), (21, 21)],
          mask := Some (Line (Line (ZerosLike (Frame 1)) (11, 11) (10, 10) [0, 1, 2] 2)
                          (21, 21) (20, 20) [3, 4, 5] 2)\<rparr>,
        [PutText (Frame 1) ''fps'',
         PutText (Add (Circle (Circle (Frame 2) (11, 11) 5 [0, 1, 2] (- 1)) (21, 21) 5 [3, 4, 5] (- 1))
                   (Line (Line (ZerosLike (Frame 1)) (11, 11) (10, 10) [0, 1, 2] 2)
                          (21, 21) (20, 20) [3, 4, 5] 2)) ''fps''])"
  by (simp add: first_lost_def symbolic_def FlowLK_init_def rows_def process_def
        goodFeaturesToTrack_def select_def upt_rec)

lemma both_tracked_run:
  "run first_lost (FlowLK_init rows) [(Frame 1, ''fps''), (Frame 2, ''fps'')] =
   Inr (both_tracked,
        [PutText (Frame 1) ''fps'',
         PutText (Add (Circle (Circle (Frame 2) (11, 11) 5 [0, 1, 2] (- 1)) (21, 21) 5 [3, 4, 5] (- 1))
                   (Line (Line (ZerosLike (Frame 1)) (11, 11) (10, 10) [0, 1, 2] 2)
                          (21, 21) (20, 20) [3, 4, 5] 2)) ''fps''])"
  unfolding both_tracked_def by (rule first_lost_run2)

lemma both_tracked_fields:
  "old_gray both_tracked = Some (Gray (Frame 2))"
  "p0 both_tracked = Some [(11, 11), (21, 21)]"
  "mask both_tracked =
     Some (Line (Line (ZerosLike (Frame 1)) (11, 11) (10, 10) [0, 1, 2] 2)
             (21, 21) (20, 20) [3, 4, 5] 2)"
  "color both_tracked = color (FlowLK_init rows :: (img, img) FlowLK)"
  "lk_params both_tracked = lk_params (FlowLK_init rows :: (img, img) FlowLK)"
  by (simp_all add: both_tracked_def)

lemma first_lost_track3:
  "calcOpticalFlowPyrLK first_lost (Gray (Frame 2)) (cvtColor first_lost (Frame 3))
     [(11, 11), (21, 21)] lk = Some ([(12, 12), (22, 22)], [0, 1])"
  by (simp add: first_lost_def symbolic_def)

lemma first_lost_ops:
  "putText first_lost = PutText" "add first_lost = Add" "line first_lost = Line"
  "circle first_lost = Circle"
  by (simp_all add: first_lost_def symbolic_def)

lemma all_found_run1:
  "run all_found (FlowLK_init rows) [(Frame 1, ''fps'')] =
     Inr (acquired, [PutText (Frame 1) ''fps''])"
  by (simp add: process_first init_fields acquired_def goodFeaturesToTrack_def)
     (simp add: all_found_def symbolic_def)

lemma all_found_kept:
  "kept all_found 1 acquired [(Frame 2, ''fps''), (Frame 3, ''fps'')]"
  by (simp add: all_found_def symbolic_def acquired_def FlowLK_init_def rows_def process_def
        select_def upt_rec)

lemma all_found_tracks:
  "run_tracks all_found acquired [(Frame 2, ''fps''), (Frame 3, ''fps'')] =
     [[((11, 11), (10, 10), [0, 1, 2]), ((21, 21), (20, 20), [3, 4, 5])],
      [((12, 12), (11, 11), [0, 1, 2]), ((22, 22), (21, 21), [3, 4, 5])]]"
  by (simp add: all_found_def symbolic_def acquired_def FlowLK_init_def rows_def process_def
        select_def upt_rec good_def tracks_def enumerate_eq_zip)

lemma first_lost_tracks:
  "run_tracks first_lost acquired [(Frame 2, ''fps''), (Frame 3, ''fps'')] =
     [[((11, 11), (10, 10), [0, 1, 2]), ((21, 21), (20, 20), [3, 4, 5])],
      [((22, 22), (21, 21), [0, 1, 2])]]"
  by (simp add: first_lost_def symbolic_def acquired_def FlowLK_init_def rows_def process_def
        select_def upt_rec good_def tracks_def enumerate_eq_zip)

lemma nothing_found_aligned: "aligned nothing_found"
  by (auto simp: aligned_def nothing_found_def symbolic_def split: if_splits)

section \<open>The sketch: from the bytes on the port to the LED\<close>

declare find_colon.simps [simp del] while_tok.simps [simp del] tokens_of.simps [simp del]

lemma find_colon_prefix:
  "i < int (length xs) \<Longrightarrow> find_colon (xs @ ys) i = find_colon xs i"
proof (induction xs i rule: find_colon.induct)
  case (1 tok i)
  show ?case
  proof (cases "i \<ge> 0 \<and> tok ! nat i \<noteq> CHR '':''")
    case True
    with "1.prems" have n: "nat i < length tok" by linarith
    from True n have "find_colon (tok @ ys) i = find_colon (tok @ ys) (i - 1)"
      by (subst find_colon.simps) (simp add: nth_append)
    also have "\<dots> = find_colon tok (i - 1)"
      using "1.IH" [OF True] "1.prems" by simp
    also have "\<dots> = find_colon tok i"
      using True by (subst (2) find_colon.simps) simp
    finally show ?thesis .
  next
    case False
    show ?thesis
    proof (cases "i \<ge> 0")
      case True
      with "1.prems" have n: "nat i < length tok" by linarith
      with False True show ?thesis
        by (subst find_colon.simps, subst (2) find_colon.simps) (simp add: nth_append)
    next
      case False
      then show ?thesis
        by (subst find_colon.simps, subst (2) find_colon.simps) simp
    qed
  qed
qed

lemma find_colon_last:
  "(find_colon tok (int (length tok) - 1) \<ge> 0 \<longleftrightarrow> CHR '':'' \<in> set tok) \<and>
   find_colon tok (int (length tok) - 1) < int (length tok) \<and>
   (CHR '':'' \<in> set tok \<longrightarrow>
      take (nat (find_colon tok (int (length tok) - 1))) tok =
        rev (tl (dropWhile (\<lambda>c. c \<noteq> CHR '':'') (rev tok))))"
proof (induction tok rule: rev_induct)
  case Nil
  have "find_colon [] (- 1) = - 1" by (subst find_colon.simps) simp
  then show ?case by simp
next
  case (snoc x xs)
  show ?case
  proof (cases "x = CHR '':''")
    case True
    then have "find_colon (xs @ [x]) (int (length (xs @ [x])) - 1) = int (length xs)"
      by (subst find_colon.simps) simp
    with True show ?thesis by simp
  next
    case False
    then have "find_colon (xs @ [x]) (int (length (xs @ [x])) - 1) =
        find_colon (xs @ [x]) (int (length xs) - 1)"
      by (subst find_colon.simps) simp
    also have "\<dots> = find_colon xs (int (length xs) - 1)"
      by (rule find_colon_prefix) simp
    finally have e: "find_colon (xs @ [x]) (int (length (xs @ [x])) - 1) =
        find_colon xs (int (length xs) - 1)" .
    from snoc.IH False show ?thesis
      unfolding e by auto
  qed
qed

lemma switch_state_1:
  "switch_state 1 tok = (if truncated tok = CATEGORY then 2 else 1)"
proof (cases "CHR '':'' \<in> set tok")
  case True
  with find_colon_last [of tok] show ?thesis
    by (simp add: switch_state_def truncated_def Let_def)
next
  case False
  with find_colon_last [of tok] have "\<not> find_colon tok (int (length tok) - 1) \<ge> 0" by blast
  with False show ?thesis
    by (simp add: switch_state_def truncated_def Let_def)
qed

lemma foldl_switch_other:
  "state \<noteq> 0 \<Longrightarrow> state \<noteq> 1 \<Longrightarrow> foldl switch_state state toks = state"
  by (induction toks) (simp_all add: switch_state_def)

lemma foldl_switch_1:
  "foldl switch_state 1 toks =
     (if list_ex (\<lambda>tok. truncated tok = CATEGORY) toks then 2 else 1)"
  by (induction toks) (simp_all add: switch_state_1 foldl_switch_other)

lemma foldl_switch_0:
  "foldl switch_state 0 toks = 2 \<longleftrightarrow>
     (case toks of [] \<Rightarrow> False
      | first # others \<Rightarrow> first = ''DO'' \<and> list_ex (\<lambda>tok. truncated tok = CATEGORY) others)"
proof (cases toks)
  case Nil
  then show ?thesis by simp
next
  case (Cons t ts)
  have "switch_state 0 t = (if t = ''DO'' then 1 else 1000)"
    by (simp add: switch_state_def)
  with Cons show ?thesis
    by (simp add: foldl_switch_1 foldl_switch_other)
qed

lemma tokens_of_skip: "tokens_of sep (dropWhile sep s) = tokens_of sep s"
  by (subst tokens_of.simps, subst (2) tokens_of.simps) simp

lemma dropWhile_drop1:
  "dropWhile sep (drop 1 (dropWhile (\<lambda>c. \<not> sep c) cs)) = dropWhile sep (dropWhile (\<lambda>c. \<not> sep c) cs)"
proof (cases "dropWhile (\<lambda>c. \<not> sep c) cs")
  case Nil
  show ?thesis unfolding Nil by simp
next
  case (Cons y ys)
  with hd_dropWhile [of "\<lambda>c. \<not> sep c" cs] have "sep y" by simp
  then show ?thesis unfolding Cons by simp
qed

lemma tokens_of_drop1:
  "tokens_of sep (drop 1 (dropWhile (\<lambda>c. \<not> sep c) cs)) =
   tokens_of sep (dropWhile (\<lambda>c. \<not> sep c) cs)"
proof -
  have "tokens_of sep (drop 1 (dropWhile (\<lambda>c. \<not> sep c) cs)) =
      tokens_of sep (dropWhile sep (drop 1 (dropWhile (\<lambda>c. \<not> sep c) cs)))"
    by (simp only: tokens_of_skip)
  also have "\<dots> = tokens_of sep (dropWhile sep (dropWhile (\<lambda>c. \<not> sep c) cs))"
    by (simp only: dropWhile_drop1)
  also have "\<dots> = tokens_of sep (dropWhile (\<lambda>c. \<not> sep c) cs)"
    by (simp only: tokens_of_skip)
  finally show ?thesis .
qed

lemma while_tok_tokens:
  "while_tok state s = foldl switch_state state (tokens_of delim s)"
proof (induction state s rule: while_tok.induct)
  case (1 state rest)
  show ?case
  proof (cases "dropWhile delim rest")
    case Nil
    have "strtok rest = None" unfolding strtok_def Nil by simp
    then have "while_tok state rest = state"
      by (subst while_tok.simps) simp
    moreover have "tokens_of delim rest = []"
      by (subst tokens_of.simps) (simp only: Nil list.case)
    ultimately show ?thesis by simp
  next
    case (Cons c cs)
    with hd_dropWhile [of delim rest] have c: "\<not> delim c" by simp
    let ?tok = "takeWhile (\<lambda>c. \<not> delim c) (c # cs)"
    let ?rest = "drop 1 (dropWhile (\<lambda>c. \<not> delim c) (c # cs))"
    have s: "strtok rest = Some (?tok, ?rest)"
      unfolding strtok_def Cons by simp
    have "while_tok state rest = while_tok (switch_state state ?tok) ?rest"
      by (subst while_tok.simps) (simp add: s)
    also have "\<dots> = foldl switch_state (switch_state state ?tok) (tokens_of delim ?rest)"
      by (rule "1.IH" [OF s refl])
    also have "tokens_of delim ?rest = tokens_of delim (dropWhile (\<lambda>c. \<not> delim c) cs)"
      using c tokens_of_drop1 [of delim cs] by simp
    also have "foldl switch_state (switch_state state ?tok)
          (tokens_of delim (dropWhile (\<lambda>c. \<not> delim c) cs)) =
        foldl switch_state state (tokens_of delim rest)"
      by (subst (2) tokens_of.simps) (simp add: Cons c)
    finally show ?thesis .
  qed
qed

lemma takeWhile_upto:
  "x \<notin> set xs \<Longrightarrow> takeWhile (\<lambda>c. c \<noteq> x) (xs @ x # ys) = xs"
  by (induction xs) auto

lemma received_line:
  assumes "CHR 0x0A \<notin> set msg" and "length msg \<le> INLEN"
  shows "readBytesUntil (CHR 0x0A) INLEN (msg @ CHR 0x0A # later) = msg"
proof -
  have "takeWhile (\<lambda>c. c \<noteq> CHR 0x0A) (msg @ CHR 0x0A # later) = msg"
    using assms(1) by (rule takeWhile_upto)
  with assms(2) show ?thesis by (simp add: readBytesUntil_def)
qed

lemma buffer_string:
  assumes "length instr = INLEN + 1" and "length msg < INLEN" and "CHR 0x00 \<notin> set msg"
  shows "c_str ((msg @ drop (length msg) instr)[unat (of_nat (length msg) :: byte) := CHR 0x00])
           = msg"
proof -
  from assms(2) have u: "unat (of_nat (length msg) :: byte) = length msg"
    by (simp add: INLEN_def unat_of_nat)
  from assms(1,2) obtain d ds where d: "drop (length msg) instr = d # ds"
    by (cases "drop (length msg) instr") simp_all
  have "(msg @ drop (length msg) instr)[length msg := CHR 0x00] = msg @ CHR 0x00 # ds"
    unfolding d by (simp add: list_update_append)
  moreover have "takeWhile (\<lambda>c. c \<noteq> CHR 0x00) (msg @ CHR 0x00 # ds) = msg"
    using assms(3) by (rule takeWhile_upto)
  ultimately show ?thesis by (simp add: c_str_def u)
qed

section \<open>The claims about the tracking controller\<close>

text \<open>
  Claim C1, index alignment. The claim asks that after every call that leaves the
  controller in \<open>TRACKING\<close> the point set and its colours have the same length, the
  colours being filtered together with the points on a partial result. The class
  keeps one colour table, \<^verbatim>\<open>self.color\<close>, of 100 rows, and never filters it. What
  holds instead: in every instance that a run of calls from a fresh instance reaches
  and that is in \<open>TRACKING\<close>, the table is still the table of the constructor, it has
  100 rows, and there are at most as many points as rows; and on a partial result of
  the tracker, aligned with the points, the call does not raise, leaves the table as
  it is, and draws for the survivor of each new index \<open>i\<close>, its position among the
  survivors, one line into the mask and one circle onto the frame, both in row \<open>i\<close> of
  the table: the colours in use are the first rows, one per survivor.
\<close>

theorem index_alignment_amended:
  fixes cv :: "('i, 'g) opencv"
  assumes "run cv (FlowLK_init randint) frames = Inr (self, outs)"
    and "track_state self = TRACKING"
  shows "color self = color (FlowLK_init randint :: ('i, 'g) FlowLK) \<and>
         length (color self) = 100 \<and>
         (\<exists>og pts m.
            old_gray self = Some og \<and> p0 self = Some pts \<and> mask self = Some m \<and>
            length pts \<le> length (color self) \<and>
            length (point_colours self) = length pts \<and>
            (calcOpticalFlowPyrLK cv og (cvtColor cv frame) pts (lk_params self) = Some (p1, st) \<and>
             length p1 = length pts \<and> length st = length pts \<longrightarrow>
               (\<exists>self' drawn.
                  drawn = map (\<lambda>i. (good p1 st ! i, good pts st ! i, color self ! i))
                            [0..<length (good p1 st)] \<and>
                  process cv self frame fps =
                    Inr (self', putText cv (add cv (foldl (draw_circle cv) frame drawn)
                                                   (foldl (draw_line cv) m drawn)) fps) \<and>
                  mask self' = Some (foldl (draw_line cv) m drawn) \<and>
                  p0 self' = Some (good p1 st) \<and>
                  color self' = color self \<and>
                  length (good p1 st) \<le> length (color self'))))"
proof -
  from assms(2) obtain og where og: "old_gray self = Some og"
    by (auto simp: track_state_def split: option.splits)
  from reachable_tracking [OF assms(1) og] obtain pts m where
    pm: "p0 self = Some pts" "mask self = Some m" and
    le: "length pts \<le> 100" and c: "length (color self) = 100" by blast
  from run_static [OF assms(1)]
  have same: "color self = color (FlowLK_init randint :: ('i, 'g) FlowLK)" by simp
  have step: "\<exists>self' drawn.
      drawn = map (\<lambda>i. (good p1 st ! i, good pts st ! i, color self ! i))
                [0..<length (good p1 st)] \<and>
      process cv self frame fps =
        Inr (self', putText cv (add cv (foldl (draw_circle cv) frame drawn)
                                       (foldl (draw_line cv) m drawn)) fps) \<and>
      mask self' = Some (foldl (draw_line cv) m drawn) \<and>
      p0 self' = Some (good p1 st) \<and>
      color self' = color self \<and>
      length (good p1 st) \<le> length (color self')"
    if t: "calcOpticalFlowPyrLK cv og (cvtColor cv frame) pts (lk_params self) = Some (p1, st)"
      and l: "length p1 = length pts" "length st = length pts"
  proof -
    have lc: "length pts \<le> length (color self)" using le c by simp
    have e: "length (good p1 st) = length (good pts st)"
      using l by (simp add: length_good_flags)
    have d: "tracks (color self) (good p1 st) (good pts st) =
        map (\<lambda>i. (good p1 st ! i, good pts st ! i, color self ! i)) [0..<length (good p1 st)]"
      using e by (rule tracks_map)
    have g: "length (good p1 st) \<le> length (color self)"
      using length_good [of p1 st] l lc by simp
    from process_partial [OF og pm t l lc, of fps] g show ?thesis
      unfolding d by simp
  qed
  from og pm le c same step show ?thesis
    by (simp add: point_colours_def)
qed

text \<open>
  The hypotheses hold in the second scenario after frame 2, with frame 3 a partial
  result that drops the first point: the survivor, which had index 1, is drawn in row 0.
\<close>

theorem index_alignment_amended_witness:
  "run first_lost (FlowLK_init rows) [(Frame 1, ''fps''), (Frame 2, ''fps'')] =
     Inr (both_tracked,
          [PutText (Frame 1) ''fps'',
           PutText (Add (Circle (Circle (Frame 2) (11, 11) 5 [0, 1, 2] (- 1))
                           (21, 21) 5 [3, 4, 5] (- 1))
                        (Line (Line (ZerosLike (Frame 1)) (11, 11) (10, 10) [0, 1, 2] 2)
                           (21, 21) (20, 20) [3, 4, 5] 2)) ''fps'']) \<and>
   track_state both_tracked = TRACKING \<and>
   calcOpticalFlowPyrLK first_lost (Gray (Frame 2)) (cvtColor first_lost (Frame 3))
     [(11, 11), (21, 21)] (lk_params both_tracked) = Some ([(12, 12), (22, 22)], [0, 1]) \<and>
   length [(12, 12) :: point, (22, 22)] = length [(11, 11) :: point, (21, 21)] \<and>
   length [0 :: nat, 1] = length [(11, 11) :: point, (21, 21)] \<and>
   length (color both_tracked) = 100 \<and>
   (\<exists>self'. process first_lost both_tracked (Frame 3) ''fps'' =
      Inr (self',
           PutText (Add (Circle (Frame 3) (22, 22) 5 [0, 1, 2] (- 1))
                        (Line (Line (Line (ZerosLike (Frame 1)) (11, 11) (10, 10) [0, 1, 2] 2)
                                 (21, 21) (20, 20) [3, 4, 5] 2)
                           (22, 22) (21, 21) [0, 1, 2] 2)) ''fps'') \<and>
      p0 self' = Some [(22, 22)] \<and> color self' = color both_tracked)"
proof -
  have t: "track_state both_tracked = TRACKING"
    by (simp add: track_state_def both_tracked_fields)
  have g: "good [(12, 12), (22, 22)] [0, 1] = [(22 :: real, 22 :: real)]"
    "good [(11, 11), (21, 21)] [0, 1] = [(21 :: real, 21 :: real)]"
    by (simp_all add: good_def)
  from index_alignment_amended [OF both_tracked_run t,
      where frame = "Frame 3" and fps = "''fps''" and ?p1.0 = "[(12, 12), (22, 22)]"
        and st = "[0, 1]"]
  have c: "length (color both_tracked) = 100"
    and "\<exists>self' drawn.
      drawn = map (\<lambda>i. (good [(12, 12), (22, 22)] [0, 1] ! i,
                        good [(11, 11), (21, 21)] [0, 1] ! i, color both_tracked ! i))
                [0..<length (good [(12 :: real, 12 :: real), (22, 22)] [0, 1])] \<and>
      process first_lost both_tracked (Frame 3) ''fps'' =
        Inr (self', putText first_lost
               (add first_lost (foldl (draw_circle first_lost) (Frame 3) drawn)
                  (foldl (draw_line first_lost)
                     (Line (Line (ZerosLike (Frame 1)) (11, 11) (10, 10) [0, 1, 2] 2)
                        (21, 21) (20, 20) [3, 4, 5] 2) drawn)) ''fps'') \<and>
      p0 self' = Some (good [(12, 12), (22, 22)] [0, 1]) \<and>
      color self' = color both_tracked"
    using first_lost_track3 [of "lk_params both_tracked"]
    by (auto simp: both_tracked_fields(1-3))
  then obtain self' where
    "process first_lost both_tracked (Frame 3) ''fps'' =
       Inr (self',
            PutText (Add (Circle (Frame 3) (22, 22) 5 [0, 1, 2] (- 1))
                         (Line (Line (Line (ZerosLike (Frame 1)) (11, 11) (10, 10) [0, 1, 2] 2)
                                  (21, 21) (20, 20) [3, 4, 5] 2)
                            (22, 22) (21, 21) [0, 1, 2] 2)) ''fps'')"
    "p0 self' = Some [(22, 22)]" "color self' = color both_tracked"
    unfolding g
    by (auto simp: draw_line_def draw_circle_def first_lost_ops both_tracked_fields(4) rows_table)
  with both_tracked_run t first_lost_track3 [of "lk_params both_tracked"] c
  show ?thesis by auto
qed

text \<open>
  The claim as stated fails in the second scenario. After frame 3 the controller is in
  \<open>TRACKING\<close> with one point, and the table has 100 rows. Before frame 3 the two
  points had the colours \<open>[0,1,2]\<close> and \<open>[3,4,5]\<close>; the first point is dropped; the
  colours filtered with the flags \<open>[0,1]\<close> would be \<open>[[3,4,5]]\<close>, but the colour that
  belongs to the surviving point now is \<open>[0,1,2]\<close>.
\<close>

theorem index_alignment_counterexample:
  "map_sum id (track_state \<circ> fst)
     (run first_lost (FlowLK_init rows) [(Frame 1, ''fps''), (Frame 2, ''fps''), (Frame 3, ''fps'')])
     = Inr TRACKING \<and>
   map_sum id (p0 \<circ> fst)
     (run first_lost (FlowLK_init rows) [(Frame 1, ''fps''), (Frame 2, ''fps''), (Frame 3, ''fps'')])
     = Inr (Some [(22, 22)]) \<and>
   map_sum id (length \<circ> color \<circ> fst)
     (run first_lost (FlowLK_init rows) [(Frame 1, ''fps''), (Frame 2, ''fps''), (Frame 3, ''fps'')])
     = Inr 100 \<and>
   map_sum id (point_colours \<circ> fst)
     (run first_lost (FlowLK_init rows) [(Frame 1, ''fps''), (Frame 2, ''fps'')])
     = Inr [[0, 1, 2], [3, 4, 5]] \<and>
   map_sum id (point_colours \<circ> fst)
     (run first_lost (FlowLK_init rows) [(Frame 1, ''fps''), (Frame 2, ''fps''), (Frame 3, ''fps'')])
     = Inr [[0, 1, 2]] \<and>
   good [[0, 1, 2], [3, 4, 5 :: int]] [0, 1] = [[3, 4, 5]]"
  by (simp add: first_lost_def symbolic_def FlowLK_init_def rows_def process_def
        goodFeaturesToTrack_def select_def upt_rec track_state_def point_colours_def good_def)

text \<open>
  Claim C2, colour stability. The claim asks that all trail segments and markers of a
  point that survives N consecutive track steps have the colour the point got at
  acquisition, also when points of a lower index are dropped. The drawing loop takes
  the colour of row \<open>i\<close> for the pair of position \<open>i\<close> in the filtered arrays. What
  holds instead, from any instance that a run reaches in \<open>TRACKING\<close>. First, over N
  frames on which the point of index \<open>k\<close> survives and no point before it is dropped
  (\<open>kept\<close>), every step succeeds and draws; in each step the draw call of index \<open>k\<close>
  starts where the one before ended, the first at the point's location, and has the
  colour of row \<open>k\<close> (\<open>trail\<close>); the mask at the end is the mask at the start
  with exactly these draw calls made, in order, a line each (\<open>draw_line\<close>); and
  the image sent for each frame carries the circles of the same draw calls of its step
  (\<open>sent_with\<close>, \<open>draw_circle\<close>). Second, in any one step on a result aligned with
  the points, a surviving point of index \<open>i\<close> has its line and its circle drawn in the
  row of its new index, the number of survivors before it (\<open>new_index\<close>); that is its
  index in the new point set, and it is lower than \<open>i\<close> exactly when a point before it
  is dropped in that step.
\<close>

theorem colour_stability_amended:
  assumes "run cv (FlowLK_init randint) before = Inr (self, outs)"
    and "old_gray self = Some og" and "p0 self = Some pts"
  shows "(kept cv k self frames \<longrightarrow>
            length (run_tracks cv self frames) = length frames \<and>
            trail k (color self ! k) (pts ! k) (run_tracks cv self frames) \<and>
            (\<exists>m self' outs'. mask self = Some m \<and>
               run cv self frames = Inr (self', outs') \<and>
               mask self' = Some (foldl (draw_line cv) m (concat (run_tracks cv self frames))) \<and>
               sent_with cv frames (run_tracks cv self frames) outs')) \<and>
         (calcOpticalFlowPyrLK cv og (cvtColor cv frame) pts (lk_params self) = Some (p1, st) \<and>
          length p1 = length pts \<and> length st = length pts \<and> i < length pts \<and> st ! i = 1 \<longrightarrow>
            (\<exists>m self' pts' drawn.
               mask self = Some m \<and>
               drawn = step_tracks cv self frame \<and>
               process cv self frame fps =
                 Inr (self', putText cv (add cv (foldl (draw_circle cv) frame drawn)
                                                (foldl (draw_line cv) m drawn)) fps) \<and>
               mask self' = Some (foldl (draw_line cv) m drawn) \<and>
               new_index st i < length drawn \<and>
               drawn ! new_index st i = (p1 ! i, pts ! i, color self ! new_index st i) \<and>
               p0 self' = Some pts' \<and> new_index st i < length pts' \<and>
               pts' ! new_index st i = p1 ! i \<and>
               new_index st i \<le> i \<and>
               (new_index st i < i \<longleftrightarrow> (\<exists>l<i. st ! l \<noteq> 1))))"
proof (intro conjI impI)
  from reachable_tracking [OF assms(1,2)] assms(3)
  obtain m where m: "mask self = Some m" and le: "length pts \<le> length (color self)"
    by auto
  {
    assume k: "kept cv k self frames"
    from trail_kept [OF assms(2,3) m le k]
    show "length (run_tracks cv self frames) = length frames"
      and "trail k (color self ! k) (pts ! k) (run_tracks cv self frames)"
      by simp_all
    from trail_kept [OF assms(2,3) m le k] m
    show "\<exists>m self' outs'. mask self = Some m \<and>
               run cv self frames = Inr (self', outs') \<and>
               mask self' = Some (foldl (draw_line cv) m (concat (run_tracks cv self frames))) \<and>
               sent_with cv frames (run_tracks cv self frames) outs'"
      by simp
  }
  assume a: "calcOpticalFlowPyrLK cv og (cvtColor cv frame) pts (lk_params self) = Some (p1, st) \<and>
          length p1 = length pts \<and> length st = length pts \<and> i < length pts \<and> st ! i = 1"
  then have t: "calcOpticalFlowPyrLK cv og (cvtColor cv frame) pts (lk_params self) = Some (p1, st)"
    and l: "length p1 = length pts" "length st = length pts"
    and i: "i < length pts" "st ! i = 1" by simp_all
  let ?j = "new_index st i"
  let ?ts = "tracks (color self) (good p1 st) (good pts st)"
  have s: "step_tracks cv self frame = ?ts"
    using assms(2,3) t by simp
  have gn: "?j < length (good p1 st)" "good p1 st ! ?j = p1 ! i"
    using good_index [of st p1 i] l i by simp_all
  have go: "?j < length (good pts st)" "good pts st ! ?j = pts ! i"
    using good_index [of st pts i] l i by simp_all
  have n: "?ts ! ?j = (p1 ! i, pts ! i, color self ! ?j)"
    using gn go by (simp add: tracks_nth)
  have ln: "?j < length ?ts" using gn go by (simp add: length_tracks)
  have lt: "?j < i \<longleftrightarrow> (\<exists>l<i. st ! l \<noteq> 1)"
    using i(1) l(2) by (intro new_index_less) simp
  from process_partial [OF assms(2,3) m t l le, of fps]
  show "\<exists>m self' pts' drawn.
               mask self = Some m \<and>
               drawn = step_tracks cv self frame \<and>
               process cv self frame fps =
                 Inr (self', putText cv (add cv (foldl (draw_circle cv) frame drawn)
                                                (foldl (draw_line cv) m drawn)) fps) \<and>
               mask self' = Some (foldl (draw_line cv) m drawn) \<and>
               new_index st i < length drawn \<and>
               drawn ! new_index st i = (p1 ! i, pts ! i, color self ! new_index st i) \<and>
               p0 self' = Some pts' \<and> new_index st i < length pts' \<and>
               pts' ! new_index st i = p1 ! i \<and>
               new_index st i \<le> i \<and>
               (new_index st i < i \<longleftrightarrow> (\<exists>l<i. st ! l \<noteq> 1))"
    using m gn n ln lt new_index_le [of st i] unfolding s by simp
qed

text \<open>
  In the fifth scenario the second point is kept over frames 2 and 3, and both of its
  segments are drawn in row 1, \<open>[3,4,5]\<close>. In the second scenario, on frame 3, the
  first point is dropped: the second point, of index 1, gets the new index 0 and its
  segment is drawn in row 0, \<open>[0,1,2]\<close>.
\<close>

theorem colour_stability_amended_witness:
  "run all_found (FlowLK_init rows) [(Frame 1, ''fps'')] =
     Inr (acquired, [PutText (Frame 1) ''fps'']) \<and>
   old_gray acquired = Some (Gray (Frame 1)) \<and>
   p0 acquired = Some [(10, 10), (20, 20)] \<and>
   kept all_found 1 acquired [(Frame 2, ''fps''), (Frame 3, ''fps'')] \<and>
   run_tracks all_found acquired [(Frame 2, ''fps''), (Frame 3, ''fps'')] =
     [[((11, 11), (10, 10), [0, 1, 2]), ((21, 21), (20, 20), [3, 4, 5])],
      [((12, 12), (11, 11), [0, 1, 2]), ((22, 22), (21, 21), [3, 4, 5])]] \<and>
   trail 1 [3, 4, 5] (20, 20)
     (run_tracks all_found acquired [(Frame 2, ''fps''), (Frame 3, ''fps'')]) \<and>
   run first_lost (FlowLK_init rows) [(Frame 1, ''fps''), (Frame 2, ''fps'')] =
     Inr (both_tracked,
          [PutText (Frame 1) ''fps'',
           PutText (Add (Circle (Circle (Frame 2) (11, 11) 5 [0, 1, 2] (- 1))
                           (21, 21) 5 [3, 4, 5] (- 1))
                        (Line (Line (ZerosLike (Frame 1)) (11, 11) (10, 10) [0, 1, 2] 2)
                           (21, 21) (20, 20) [3, 4, 5] 2)) ''fps'']) \<and>
   old_gray both_tracked = Some (Gray (Frame 2)) \<and>
   p0 both_tracked = Some [(11, 11), (21, 21)] \<and>
   calcOpticalFlowPyrLK first_lost (Gray (Frame 2)) (cvtColor first_lost (Frame 3))
     [(11, 11), (21, 21)] (lk_params both_tracked) = Some ([(12, 12), (22, 22)], [0, 1]) \<and>
   [0 :: nat, 1] ! 1 = 1 \<and>
   new_index [0, 1] 1 = 0 \<and>
   step_tracks first_lost both_tracked (Frame 3) ! 0 = ((22, 22), (21, 21), [0, 1, 2]) \<and>
   (\<exists>self'. process first_lost both_tracked (Frame 3) ''fps'' =
      Inr (self',
           putText first_lost
             (add first_lost
                (foldl (draw_circle first_lost) (Frame 3)
                   (step_tracks first_lost both_tracked (Frame 3)))
                (foldl (draw_line first_lost)
                   (Line (Line (ZerosLike (Frame 1)) (11, 11) (10, 10) [0, 1, 2] 2)
                      (21, 21) (20, 20) [3, 4, 5] 2)
                   (step_tracks first_lost both_tracked (Frame 3)))) ''fps''))"
proof -
  have ni: "new_index [0, 1] 1 = 0"
    by (simp add: new_index_def)
  have c1: "color acquired ! 1 = [3, 4, 5]" "color both_tracked ! 0 = [0, 1, 2]"
    using rows_table by (simp_all add: acquired_fields both_tracked_fields)
  note run_part = colour_stability_amended [OF all_found_run1 acquired_fields(1,2),
      where k = 1 and frames = "[(Frame 2, ''fps''), (Frame 3, ''fps'')]",
      THEN conjunct1, rule_format, OF all_found_kept]
  have e: "([(10, 10), (20, 20)] :: point list) ! 1 = (20, 20)" by simp
  have tr: "trail 1 [3, 4, 5] (20, 20)
     (run_tracks all_found acquired [(Frame 2, ''fps''), (Frame 3, ''fps'')])"
    by (rule run_part [THEN conjunct2, THEN conjunct1, unfolded c1 e])
  have h: "calcOpticalFlowPyrLK first_lost (Gray (Frame 2)) (cvtColor first_lost (Frame 3))
      [(11, 11), (21, 21)] (lk_params both_tracked) = Some ([(12, 12), (22, 22)], [0, 1]) \<and>
      length [(12, 12) :: point, (22, 22)] = length [(11, 11) :: point, (21, 21)] \<and>
      length [0 :: nat, 1] = length [(11, 11) :: point, (21, 21)] \<and>
      1 < length [(11, 11) :: point, (21, 21)] \<and> [0 :: nat, 1] ! 1 = 1"
    using first_lost_track3 [of "lk_params both_tracked"] by simp
  note step_part = colour_stability_amended [OF both_tracked_run both_tracked_fields(1,2),
      where frame = "Frame 3" and fps = "''fps''" and ?p1.0 = "[(12, 12), (22, 22)]"
        and st = "[0, 1]" and i = 1,
      THEN conjunct2, rule_format, OF h]
  from step_part have
    "step_tracks first_lost both_tracked (Frame 3) ! 0 = ((22, 22), (21, 21), [0, 1, 2])"
    and "\<exists>self'. process first_lost both_tracked (Frame 3) ''fps'' =
      Inr (self',
           putText first_lost
             (add first_lost
                (foldl (draw_circle first_lost) (Frame 3)
                   (step_tracks first_lost both_tracked (Frame 3)))
                (foldl (draw_line first_lost)
                   (Line (Line (ZerosLike (Frame 1)) (11, 11) (10, 10) [0, 1, 2] 2)
                      (21, 21) (20, 20) [3, 4, 5] 2)
                   (step_tracks first_lost both_tracked (Frame 3)))) ''fps'')"
    unfolding ni by (auto simp: c1 both_tracked_fields(3))
  with tr all_found_run1 acquired_fields(1,2) all_found_kept all_found_tracks
    both_tracked_run both_tracked_fields(1,2) h ni
  show ?thesis by simp
qed

text \<open>
  The claim as stated fails in the second scenario. The point detected at (20,20)
  survives the steps of frame 2 and frame 3. Its segment of frame 2, from (20,20) to
  (21,21), and its marker are drawn in \<open>[3,4,5]\<close>; on frame 3 the point before it is
  dropped and its segment from (21,21) to (22,22) is drawn in \<open>[0,1,2]\<close>.
\<close>

theorem colour_stability_counterexample:
  "run first_lost (FlowLK_init rows) [(Frame 1, ''fps'')] =
     Inr (acquired, [PutText (Frame 1) ''fps'']) \<and>
   p0 acquired = Some [(10, 10), (20, 20)] \<and>
   run_tracks first_lost acquired [(Frame 2, ''fps''), (Frame 3, ''fps'')] =
     [[((11, 11), (10, 10), [0, 1, 2]), ((21, 21), (20, 20), [3, 4, 5])],
      [((22, 22), (21, 21), [0, 1, 2])]] \<and>
   map_sum id (mask \<circ> fst)
     (run first_lost acquired [(Frame 2, ''fps''), (Frame 3, ''fps'')]) =
     Inr (Some (Line (Line (Line (ZerosLike (Frame 1)) (11, 11) (10, 10) [0, 1, 2] 2)
                        (21, 21) (20, 20) [3, 4, 5] 2)
                  (22, 22) (21, 21) [0, 1, 2] 2)) \<and>
   map_sum id snd (process first_lost acquired (Frame 2) ''fps'') =
     Inr (PutText
            (Add (Circle (Circle (Frame 2) (11, 11) 5 [0, 1, 2] (- 1)) (21, 21) 5 [3, 4, 5] (- 1))
                 (Line (Line (ZerosLike (Frame 1)) (11, 11) (10, 10) [0, 1, 2] 2)
                    (21, 21) (20, 20) [3, 4, 5] 2)) ''fps'') \<and>
   [3, 4, 5] \<noteq> [0, 1, 2 :: int]"
proof -
  have "map_sum id (mask \<circ> fst)
     (run first_lost acquired [(Frame 2, ''fps''), (Frame 3, ''fps'')]) =
     Inr (Some (Line (Line (Line (ZerosLike (Frame 1)) (11, 11) (10, 10) [0, 1, 2] 2)
                        (21, 21) (20, 20) [3, 4, 5] 2)
                  (22, 22) (21, 21) [0, 1, 2] 2))"
    by (simp add: first_lost_def symbolic_def acquired_def FlowLK_init_def rows_def process_def
        select_def upt_rec)
  moreover have "map_sum id snd (process first_lost acquired (Frame 2) ''fps'') =
     Inr (PutText
            (Add (Circle (Circle (Frame 2) (11, 11) 5 [0, 1, 2] (- 1)) (21, 21) 5 [3, 4, 5] (- 1))
                 (Line (Line (ZerosLike (Frame 1)) (11, 11) (10, 10) [0, 1, 2] 2)
                    (21, 21) (20, 20) [3, 4, 5] 2)) ''fps'')"
    by (simp add: first_lost_def symbolic_def acquired_def FlowLK_init_def rows_def process_def
        select_def upt_rec)
  ultimately show ?thesis
    using first_lost_run1 first_lost_tracks acquired_fields(2) by simp
qed

text \<open>
  Claim C3, total failure. In every instance that a run reaches in \<open>TRACKING\<close>, a call
  on which the tracker reports total failure does not raise; it sends the current
  frame with the mask added (and the frame-rate text every call writes); it leaves the
  controller \<open>UNINITIALIZED\<close>, with no reference frame and no point set, and with the
  mask it had. The attribute \<^verbatim>\<open>p0\<close> is not deleted with \<^verbatim>\<open>old_gray\<close>, but it is
  dead: whatever it holds, the next call gives the same result.
\<close>

theorem total_failure_step:
  assumes "run cv (FlowLK_init randint) frames = Inr (self, outs)"
    and "old_gray self = Some og" and "p0 self = Some pts"
    and "calcOpticalFlowPyrLK cv og (cvtColor cv frame) pts (lk_params self) = None"
  shows "\<exists>m lost. mask self = Some m \<and>
           process cv self frame fps = Inr (lost, putText cv (add cv frame m) fps) \<and>
           track_state self = TRACKING \<and> track_state lost = UNINITIALIZED \<and>
           old_gray lost = None \<and> PointSet lost = None \<and> mask lost = Some m \<and>
           process cv (lost\<lparr>p0 := q\<rparr>) frame' fps' = process cv lost frame' fps'"
proof -
  from reachable_tracking [OF assms(1,2)] assms(3)
  obtain m where m: "mask self = Some m" by auto
  have "process cv self frame fps =
          Inr (self\<lparr>old_gray := None\<rparr>, putText cv (add cv frame m) fps)"
    using assms(2,3) m assms(4) by (rule process_lost)
  moreover have "process cv (self\<lparr>old_gray := None, p0 := q\<rparr>) frame' fps' =
      process cv (self\<lparr>old_gray := None\<rparr>) frame' fps'"
    by (simp add: process_def Let_def)
  ultimately show ?thesis
    using m assms(2) by (simp add: track_state_def PointSet_def)
qed

text \<open>
  The hypotheses hold in the scenario of the spec after frame 2, with frame 3 the
  frame of the loss.
\<close>

theorem total_failure_step_witness:
  "run scenario (FlowLK_init rows) [(Frame 1, ''fps''), (Frame 2, ''fps'')] =
     Inr (tracked,
          [PutText (Frame 1) ''fps'',
           PutText (Add (Circle (Frame 2) (11, 11) 5 [0, 1, 2] (- 1))
                        (Line (ZerosLike (Frame 1)) (11, 11) (10, 10) [0, 1, 2] 2)) ''fps'']) \<and>
   old_gray tracked = Some (Gray (Frame 2)) \<and>
   p0 tracked = Some [(11, 11)] \<and>
   calcOpticalFlowPyrLK scenario (Gray (Frame 2)) (cvtColor scenario (Frame 3)) [(11, 11)]
     (lk_params tracked) = None \<and>
   (\<exists>lost. process scenario tracked (Frame 3) ''fps'' =
             Inr (lost, PutText (Add (Frame 3)
                    (Line (ZerosLike (Frame 1)) (11, 11) (10, 10) [0, 1, 2] 2)) ''fps'') \<and>
           track_state lost = UNINITIALIZED \<and> PointSet lost = None \<and>
           mask lost = Some (Line (ZerosLike (Frame 1)) (11, 11) (10, 10) [0, 1, 2] 2))"
proof -
  from total_failure_step [OF scenario_run2 tracked_fields(1,2) scenario_track3,
      where fps = "''fps''"]
  obtain m lost where "mask tracked = Some m"
    and "process scenario tracked (Frame 3) ''fps'' =
           Inr (lost, putText scenario (add scenario (Frame 3) m) ''fps'')"
    and "track_state lost = UNINITIALIZED" "PointSet lost = None" "mask lost = Some m"
    by blast
  moreover have "putText scenario = PutText" "add scenario = Add"
    by (simp_all add: scenario_def symbolic_def)
  ultimately show ?thesis
    using scenario_run2 tracked_fields(1,2) scenario_track3 
    by (auto simp: tracked_fields(3))
qed

text \<open>
  Claim C4, recovery after total loss. When the tracker reports total failure in an
  instance that a run from a fresh instance reached, the call leaves the mask as it
  was, and the next call, on any frame, gives exactly the result (instance and image
  sent) that the first call of the fresh instance gives on that frame: the grayscale
  of the frame becomes the reference, the detector's points the point set, whose
  colours are again the first rows of the table, and a blank mask of the frame's size
  replaces the old one. So the mask is cleared at the reacquisition and not at the loss.
\<close>

theorem total_loss_recovery:
  fixes cv :: "('i, 'g) opencv"
  assumes "run cv (FlowLK_init randint) frames = Inr (self, outs)"
    and "old_gray self = Some og" and "p0 self = Some pts"
    and "calcOpticalFlowPyrLK cv og (cvtColor cv frame) pts (lk_params self) = None"
  shows "\<exists>lost out. process cv self frame fps = Inr (lost, out) \<and>
           track_state lost = UNINITIALIZED \<and> mask lost = mask self \<and>
           process cv lost frame' fps' = process cv (FlowLK_init randint) frame' fps' \<and>
           process cv lost frame' fps' =
             Inr (lost\<lparr>old_gray := Some (cvtColor cv frame'),
                       p0 := Some (goodFeaturesToTrack cv (cvtColor cv frame')
                                     (feature_params lost)),
                       mask := Some (zeros_like cv frame')\<rparr>,
                  putText cv frame' fps')"
proof -
  from reachable_tracking [OF assms(1,2)] assms(3)
  obtain m where m: "mask self = Some m" by auto
  let ?lost = "self\<lparr>old_gray := None\<rparr>"
  have p: "process cv self frame fps = Inr (?lost, putText cv (add cv frame m) fps)"
    using assms(2,3) m assms(4) by (rule process_lost)
  from run_static [OF assms(1)]
  have same: "color self = color (FlowLK_init randint :: ('i, 'g) FlowLK)"
    "feature_params self = feature_params (FlowLK_init randint :: ('i, 'g) FlowLK)"
    "lk_params self = lk_params (FlowLK_init randint :: ('i, 'g) FlowLK)"
    by simp_all
  have first: "process cv ?lost frame' fps' =
      Inr (?lost\<lparr>old_gray := Some (cvtColor cv frame'),
                 p0 := Some (goodFeaturesToTrack cv (cvtColor cv frame') (feature_params ?lost)),
                 mask := Some (zeros_like cv frame')\<rparr>,
           putText cv frame' fps')"
    by (rule process_first) simp
  have init: "process cv (FlowLK_init randint) frame' fps' =
      Inr ((FlowLK_init randint)\<lparr>old_gray := Some (cvtColor cv frame'),
                 p0 := Some (goodFeaturesToTrack cv (cvtColor cv frame')
                               (feature_params (FlowLK_init randint :: ('i, 'g) FlowLK))),
                 mask := Some (zeros_like cv frame')\<rparr>,
           putText cv frame' fps')"
    by (rule process_first) (simp add: init_fields)
  have "?lost\<lparr>old_gray := Some (cvtColor cv frame'),
                 p0 := Some (goodFeaturesToTrack cv (cvtColor cv frame') (feature_params ?lost)),
                 mask := Some (zeros_like cv frame')\<rparr> =
        (FlowLK_init randint)\<lparr>old_gray := Some (cvtColor cv frame'),
                 p0 := Some (goodFeaturesToTrack cv (cvtColor cv frame') (feature_params ?lost)),
                 mask := Some (zeros_like cv frame')\<rparr>"
    by (rule overwrite_eq) (simp_all add: same)
  moreover have "feature_params ?lost = feature_params (FlowLK_init randint :: ('i, 'g) FlowLK)"
    by (simp add: same)
  ultimately have "process cv ?lost frame' fps' = process cv (FlowLK_init randint) frame' fps'"
    unfolding first init by simp
  with p first show ?thesis
    by (simp add: track_state_def)
qed

text \<open>
  The hypotheses hold in the scenario of the spec, with the loss on frame 3 and the
  reacquisition on a frame 4.
\<close>

theorem total_loss_recovery_witness:
  "run scenario (FlowLK_init rows) [(Frame 1, ''fps''), (Frame 2, ''fps'')] =
     Inr (tracked,
          [PutText (Frame 1) ''fps'',
           PutText (Add (Circle (Frame 2) (11, 11) 5 [0, 1, 2] (- 1))
                        (Line (ZerosLike (Frame 1)) (11, 11) (10, 10) [0, 1, 2] 2)) ''fps'']) \<and>
   old_gray tracked = Some (Gray (Frame 2)) \<and>
   p0 tracked = Some [(11, 11)] \<and>
   calcOpticalFlowPyrLK scenario (Gray (Frame 2)) (cvtColor scenario (Frame 3)) [(11, 11)]
     (lk_params tracked) = None \<and>
   (\<exists>lost out. process scenario tracked (Frame 3) ''fps'' = Inr (lost, out) \<and>
      mask lost = mask tracked \<and>
      process scenario lost (Frame 4) ''fps'' =
        process scenario (FlowLK_init rows) (Frame 4) ''fps'')"
proof -
  from total_loss_recovery [OF scenario_run2 tracked_fields(1,2) scenario_track3,
      where fps = "''fps''" and frame' = "Frame 4" and fps' = "''fps''"]
  obtain lost out where "process scenario tracked (Frame 3) ''fps'' = Inr (lost, out)"
    and "mask lost = mask tracked"
    and "process scenario lost (Frame 4) ''fps'' =
           process scenario (FlowLK_init rows) (Frame 4) ''fps''"
    by blast
  then show ?thesis
    using scenario_run2 tracked_fields(1,2) scenario_track3 by blast
qed

text \<open>
  Claim C5, the scenario of three frames. For every OpenCV whose detector returns
  (10,10) and (20,20) on frame 1 and whose tracker returns ((11,11), found) and ((0,0),
  lost) on frame 2 and total failure on frame 3: after frame 1 the controller is in
  \<open>TRACKING\<close> with the two points, which have two colours, rows 0 and 1; after frame
  2 the point set is (11,11) alone with one colour, row 0, the colour the first point
  had, and the mask is the blank mask with one segment between (10,10) and (11,11); on
  frame 3 the controller becomes \<open>UNINITIALIZED\<close> and the image sent is frame 3 with
  that mask added.
\<close>

theorem concrete_scenario:
  fixes cv :: "('i, 'g) opencv" and init :: "('i, 'g) FlowLK"
    and randint :: "nat \<Rightarrow> nat \<Rightarrow> int" and frame1 :: 'i
  defines "init \<equiv> FlowLK_init randint"
  defines "segment \<equiv> line cv (zeros_like cv frame1) (11, 11) (10, 10) (color init ! 0) 2"
  assumes "goodFeaturesToTrack cv (cvtColor cv frame1) (feature_params init) =
             [(10, 10), (20, 20)]"
    and "calcOpticalFlowPyrLK cv (cvtColor cv frame1) (cvtColor cv frame2)
           [(10, 10), (20, 20)] (lk_params init) = Some ([(11, 11), (0, 0)], [1, 0])"
    and "calcOpticalFlowPyrLK cv (cvtColor cv frame2) (cvtColor cv frame3)
           [(11, 11)] (lk_params init) = None"
  shows "\<exists>s1 s2 s3 out1 out2.
           track_state init = UNINITIALIZED \<and>
           process cv init frame1 fps1 = Inr (s1, out1) \<and>
           track_state s1 = TRACKING \<and> p0 s1 = Some [(10, 10), (20, 20)] \<and>
           point_colours s1 = [color init ! 0, color init ! 1] \<and>
           mask s1 = Some (zeros_like cv frame1) \<and>
           process cv s1 frame2 fps2 = Inr (s2, out2) \<and>
           track_state s2 = TRACKING \<and> p0 s2 = Some [(11, 11)] \<and>
           point_colours s2 = [color init ! 0] \<and>
           mask s2 = Some segment \<and>
           process cv s2 frame3 fps3 = Inr (s3, putText cv (add cv frame3 segment) fps3) \<and>
           track_state s3 = UNINITIALIZED \<and> mask s3 = Some segment"
proof -
  let ?g1 = "cvtColor cv frame1" and ?g2 = "cvtColor cv frame2"
  let ?s1 = "init\<lparr>old_gray := Some ?g1, p0 := Some [(10, 10), (20, 20)],
                   mask := Some (zeros_like cv frame1)\<rparr>"
  let ?s2 = "?s1\<lparr>mask := Some segment, old_gray := Some ?g2, p0 := Some [(11, 11)]\<rparr>"
  have c: "length (color init) = 100" and u: "old_gray init = None"
    by (simp_all add: init_def init_fields)
  have 1: "process cv init frame1 fps1 = Inr (?s1, putText cv frame1 fps1)"
    using process_first [OF u, of cv frame1 fps1] assms(3) by simp
  have g: "good [(11, 11), (0, 0)] [1, 0] = [(11 :: real, 11 :: real)]"
    "good [(10, 10), (20, 20)] [1, 0] = [(10 :: real, 10 :: real)]"
    by (simp_all add: good_def)
  have t: "tracks col [(11, 11)] [(10, 10)] = [((11, 11), (10, 10), col ! 0)]" for col
    by (simp add: tracks_def enumerate_eq_zip)
  have "process cv ?s1 frame2 fps2 =
      Inr (?s1\<lparr>mask := Some (foldl (draw_line cv) (zeros_like cv frame1)
                (tracks (color ?s1) (good [(11, 11), (0, 0)] [1, 0])
                   (good [(10, 10), (20, 20)] [1, 0]))),
              old_gray := Some ?g2, p0 := Some (good [(11, 11), (0, 0)] [1, 0])\<rparr>,
           putText cv (add cv (foldl (draw_circle cv) frame2
                (tracks (color ?s1) (good [(11, 11), (0, 0)] [1, 0])
                   (good [(10, 10), (20, 20)] [1, 0])))
              (foldl (draw_line cv) (zeros_like cv frame1)
                (tracks (color ?s1) (good [(11, 11), (0, 0)] [1, 0])
                   (good [(10, 10), (20, 20)] [1, 0])))) fps2)"
    by (rule process_partial [where og = ?g1]) (simp_all add: assms(4) c)
  then have 2: "process cv ?s1 frame2 fps2 =
      Inr (?s2, putText cv (add cv (circle cv frame2 (11, 11) 5 (color init ! 0) (- 1)) segment) fps2)"
    unfolding g t by (simp add: draw_line_def draw_circle_def segment_def)
  have 3: "process cv ?s2 frame3 fps3 =
      Inr (?s2\<lparr>old_gray := None\<rparr>, putText cv (add cv frame3 segment) fps3)"
    by (rule process_lost [where og = ?g2 and pts = "[(11, 11)]"]) (simp_all add: assms(5))
  have "point_colours ?s1 = [color init ! 0, color init ! 1]"
    "point_colours ?s2 = [color init ! 0]"
    using c by (simp_all add: point_colours_def take_two take_one)
  with 1 2 3 u show ?thesis
    by (simp add: track_state_def)
qed

text \<open>
  The symbolic OpenCV of the first scenario satisfies the three hypotheses.
\<close>

theorem concrete_scenario_witness:
  "goodFeaturesToTrack scenario (cvtColor scenario (Frame 1))
     (feature_params (FlowLK_init rows :: (img, img) FlowLK)) = [(10, 10), (20, 20)] \<and>
   calcOpticalFlowPyrLK scenario (cvtColor scenario (Frame 1)) (cvtColor scenario (Frame 2))
     [(10, 10), (20, 20)] (lk_params (FlowLK_init rows :: (img, img) FlowLK))
     = Some ([(11, 11), (0, 0)], [1, 0]) \<and>
   calcOpticalFlowPyrLK scenario (cvtColor scenario (Frame 2)) (cvtColor scenario (Frame 3))
     [(11, 11)] (lk_params (FlowLK_init rows :: (img, img) FlowLK)) = None \<and>
   (\<exists>s1 s2 s3 out1 out2.
      process scenario (FlowLK_init rows) (Frame 1) ''fps'' = Inr (s1, out1) \<and>
      p0 s1 = Some [(10, 10), (20, 20)] \<and>
      process scenario s1 (Frame 2) ''fps'' = Inr (s2, out2) \<and>
      p0 s2 = Some [(11, 11)] \<and> point_colours s2 = [[0, 1, 2]] \<and>
      process scenario s2 (Frame 3) ''fps'' =
        Inr (s3, PutText (Add (Frame 3)
               (Line (ZerosLike (Frame 1)) (11, 11) (10, 10) [0, 1, 2] 2)) ''fps'') \<and>
      track_state s3 = UNINITIALIZED)"
proof -
  have h2: "calcOpticalFlowPyrLK scenario (cvtColor scenario (Frame 1)) (cvtColor scenario (Frame 2))
     [(10, 10), (20, 20)] (lk_params (FlowLK_init rows :: (img, img) FlowLK))
     = Some ([(11, 11), (0, 0)], [1, 0])"
    and h3: "calcOpticalFlowPyrLK scenario (cvtColor scenario (Frame 2)) (cvtColor scenario (Frame 3))
     [(11, 11)] (lk_params (FlowLK_init rows :: (img, img) FlowLK)) = None"
    by (simp_all add: scenario_def symbolic_def)
  from concrete_scenario [OF scenario_detect h2 h3, of "''fps''" "''fps''" "''fps''"]
  obtain s1 s2 s3 out1 out2 where
    "process scenario (FlowLK_init rows) (Frame 1) ''fps'' = Inr (s1, out1)"
    "p0 s1 = Some [(10, 10), (20, 20)]"
    "process scenario s1 (Frame 2) ''fps'' = Inr (s2, out2)"
    "p0 s2 = Some [(11, 11)]" "point_colours s2 = [[0, 1, 2]]"
    "process scenario s2 (Frame 3) ''fps'' =
        Inr (s3, PutText (Add (Frame 3)
               (Line (ZerosLike (Frame 1)) (11, 11) (10, 10) [0, 1, 2] 2)) ''fps'')"
    "track_state s3 = UNINITIALIZED"
    unfolding scenario_ops rows_table by blast
  with scenario_detect h2 h3 show ?thesis by blast
qed

text \<open>
  Claim C6, the step on a partial result. In every instance that a run reaches in
  \<open>TRACKING\<close>, when the tracker returns locations and flags aligned with the point
  set: the new points are the locations whose flag is 1, in their order (\<open>nths\<close>
  keeps the order), the old points are filtered by the same flags; the draw calls pair
  each new point with its old point; each draw call puts a line from old to new into
  the mask and a circle at the new point onto the frame; the image sent is the frame
  with the mask added; the point set becomes the new points, the reference frame the
  grayscale of the current frame, and the controller stays in \<open>TRACKING\<close>.
\<close>

theorem partial_result_step:
  fixes cv :: "('i, 'g) opencv" and st :: "nat list" and p1 pts :: "point list"
    and self :: "('i, 'g) FlowLK"
  defines "newPoints \<equiv> nths p1 {i. i < length st \<and> st ! i = 1}"
    and "oldPoints \<equiv> nths pts {i. i < length st \<and> st ! i = 1}"
  defines "segments \<equiv> tracks (color self) newPoints oldPoints"
  assumes "run cv (FlowLK_init randint) frames = Inr (self, outs)"
    and "old_gray self = Some og" and "p0 self = Some pts"
    and "calcOpticalFlowPyrLK cv og (cvtColor cv frame) pts (lk_params self) = Some (p1, st)"
    and "length p1 = length pts" and "length st = length pts"
  shows "\<exists>m self'.
           mask self = Some m \<and>
           process cv self frame fps =
             Inr (self', putText cv (add cv (foldl (draw_circle cv) frame segments)
                                            (foldl (draw_line cv) m segments)) fps) \<and>
           self' = self\<lparr>mask := Some (foldl (draw_line cv) m segments),
                         old_gray := Some (cvtColor cv frame),
                         p0 := Some newPoints\<rparr> \<and>
           track_state self' = TRACKING \<and>
           map fst segments = newPoints \<and> map (fst \<circ> snd) segments = oldPoints"
proof -
  from reachable_tracking [OF assms(4,5)] assms(6)
  obtain m where m: "mask self = Some m" and le: "length pts \<le> length (color self)"
    by auto
  have n: "newPoints = good p1 st" and o: "oldPoints = good pts st"
    unfolding newPoints_def oldPoints_def using assms(8,9) by (simp_all add: good_nths)
  have len: "length newPoints = length oldPoints"
    unfolding n o using assms(8,9) by (simp add: length_good_flags)
  have "process cv self frame fps =
      Inr (self\<lparr>mask := Some (foldl (draw_line cv) m segments),
                 old_gray := Some (cvtColor cv frame), p0 := Some newPoints\<rparr>,
           putText cv (add cv (foldl (draw_circle cv) frame segments)
                          (foldl (draw_line cv) m segments)) fps)"
    unfolding segments_def n o
    by (rule process_partial [OF assms(5,6) m assms(7,8,9) le])
  with m len show ?thesis
    by (simp add: track_state_def segments_def tracks_news tracks_olds)
qed

text \<open>
  The hypotheses hold in the scenario of the spec after frame 1, with frame 2 the
  frame of the step.
\<close>

theorem partial_result_step_witness:
  "run scenario (FlowLK_init rows) [(Frame 1, ''fps'')] =
     Inr (acquired, [PutText (Frame 1) ''fps'']) \<and>
   old_gray acquired = Some (Gray (Frame 1)) \<and>
   p0 acquired = Some [(10, 10), (20, 20)] \<and>
   calcOpticalFlowPyrLK scenario (Gray (Frame 1)) (cvtColor scenario (Frame 2))
     [(10, 10), (20, 20)] (lk_params acquired) = Some ([(11, 11), (0, 0)], [1, 0]) \<and>
   length [(11, 11) :: point, (0, 0)] = length [(10, 10) :: point, (20, 20)] \<and>
   length [1 :: nat, 0] = length [(10, 10) :: point, (20, 20)] \<and>
   (\<exists>self'. process scenario acquired (Frame 2) ''fps'' =
      Inr (self',
           PutText (Add (Circle (Frame 2) (11, 11) 5 [0, 1, 2] (- 1))
                        (Line (ZerosLike (Frame 1)) (11, 11) (10, 10) [0, 1, 2] 2)) ''fps'') \<and>
      p0 self' = Some [(11, 11)] \<and> track_state self' = TRACKING)"
proof -
  have l: "length [(11, 11) :: point, (0, 0)] = length [(10, 10) :: point, (20, 20)]"
    "length [1 :: nat, 0] = length [(10, 10) :: point, (20, 20)]" by simp_all
  from partial_result_step [OF scenario_run1 acquired_fields(1,2) scenario_track2 l,
      of "''fps''"]
  obtain self' out where "process scenario acquired (Frame 2) ''fps'' = Inr (self', out)"
    and "track_state self' = TRACKING"
    by blast
  then have "track_state tracked = TRACKING"
    by (simp add: scenario_step2)
  with scenario_run1 acquired_fields(1,2) scenario_track2 l scenario_step2 tracked_fields(2)
  show ?thesis by blast
qed

text \<open>
  Claim C7, initialisation. The claim asks that the first call returns the input frame
  unmodified in content. Every call, the first too, writes the frame-rate text onto
  the frame before sending it. What holds instead: the first call of a fresh instance,
  on any frame, takes the controller from \<open>UNINITIALIZED\<close> to \<open>TRACKING\<close>; the image
  sent is the input frame with that text and nothing else drawn; the reference frame is
  the grayscale of the frame; the mask is a blank image of the frame's size; and the
  point set has \<open>min(maxCorners, the detector's natural output)\<close> points, with
  \<open>maxCorners = 100\<close>. The detector is OpenCV's; its cap is the contract the spec
  gives it.
\<close>

theorem initialization_amended:
  "\<exists>self'. process cv (FlowLK_init randint) frame fps = Inr (self', putText cv frame fps) \<and>
     track_state (FlowLK_init randint :: ('i, 'g) FlowLK) = UNINITIALIZED \<and>
     track_state self' = TRACKING \<and>
     old_gray self' = Some (cvtColor cv frame) \<and>
     mask self' = Some (zeros_like cv frame) \<and>
     maxCorners (feature_params self') = 100 \<and>
     (\<exists>pts. p0 self' = Some pts \<and>
        length pts = min (maxCorners (feature_params self'))
                       (length (corners cv (cvtColor cv frame) (feature_params self'))))"
  for cv :: "('i, 'g) opencv"
proof -
  let ?init = "FlowLK_init randint :: ('i, 'g) FlowLK"
  let ?gray = "cvtColor cv frame"
  let ?pts = "goodFeaturesToTrack cv ?gray (feature_params ?init)"
  let ?self' = "?init\<lparr>old_gray := Some ?gray, p0 := Some ?pts,
                       mask := Some (zeros_like cv frame)\<rparr>"
  have u: "old_gray ?init = None" by (rule init_fields)
  then have "process cv ?init frame fps = Inr (?self', putText cv frame fps)"
    by (rule process_first)
  moreover have "track_state ?init = UNINITIALIZED" "track_state ?self' = TRACKING"
    using u by (simp_all add: track_state_def)
  moreover have "maxCorners (feature_params ?self') = 100"
    by (simp add: init_fields)
  moreover have "length ?pts = min (maxCorners (feature_params ?self'))
      (length (corners cv ?gray (feature_params ?self')))"
    by (simp add: goodFeaturesToTrack_def)
  ultimately show ?thesis by simp
qed

text \<open>
  The claim as stated fails on frame 1 of the scenario of the spec: the image sent
  is the frame with the text, not the frame.
\<close>

theorem initialization_counterexample:
  "map_sum id snd (process scenario (FlowLK_init rows) (Frame 1) ''fps'')
     = Inr (PutText (Frame 1) ''fps'') \<and>
   PutText (Frame 1) ''fps'' \<noteq> Frame 1"
  by (simp add: process_first init_fields scenario_def symbolic_def)

text \<open>
  Claim C8, no fatal error and empty acquisition. The claim asks that after a detection
  of zero points the controller reacquires on the subsequent call. That call finds the
  reference frame and so runs the tracker. What holds instead, for a tracker whose
  results are aligned with the points it is given: no run of calls from a fresh
  instance raises, and every call sends one image; when the detector finds nothing on
  the first frame, the controller is in \<open>TRACKING\<close> with an empty point set; the
  subsequent call runs the tracker on no points and either the tracker reports total
  failure, the controller becomes \<open>UNINITIALIZED\<close> and the call after that gives what
  a first call gives, or the tracker returns a result and the controller stays in
  \<open>TRACKING\<close> with an empty point set and the mask of the first frame.
\<close>

theorem no_fatal_error_amended:
  fixes cv :: "('i, 'g) opencv" and init :: "('i, 'g) FlowLK"
    and randint :: "nat \<Rightarrow> nat \<Rightarrow> int"
  defines "init \<equiv> FlowLK_init randint"
  assumes "aligned cv"
  shows "(\<exists>self outs. run cv init frames = Inr (self, outs) \<and> length outs = length frames) \<and>
         (goodFeaturesToTrack cv (cvtColor cv frame1) (feature_params init) = [] \<longrightarrow>
            (\<exists>s1 out1 s2 out2.
               process cv init frame1 fps1 = Inr (s1, out1) \<and>
               track_state s1 = TRACKING \<and> p0 s1 = Some [] \<and>
               process cv s1 frame2 fps2 = Inr (s2, out2) \<and>
               (case calcOpticalFlowPyrLK cv (cvtColor cv frame1) (cvtColor cv frame2) []
                       (lk_params init) of
                  None \<Rightarrow>
                    track_state s2 = UNINITIALIZED \<and>
                    out2 = putText cv (add cv frame2 (zeros_like cv frame1)) fps2 \<and>
                    process cv s2 frame3 fps3 = process cv init frame3 fps3
                | Some r \<Rightarrow>
                    track_state s2 = TRACKING \<and> p0 s2 = Some [] \<and>
                    old_gray s2 = Some (cvtColor cv frame2) \<and>
                    mask s2 = Some (zeros_like cv frame1))))"
proof (intro conjI impI)
  have "tracking_ok init" "maxCorners (feature_params init) \<le> length (color init)"
    by (simp_all add: init_def init_ok init_fields)
  from run_total [OF assms(2) this] obtain self outs where
    r: "run cv init frames = Inr (self, outs)" by blast
  from run_static [OF r] r
  show "\<exists>self outs. run cv init frames = Inr (self, outs) \<and> length outs = length frames"
    by blast
next
  assume d: "goodFeaturesToTrack cv (cvtColor cv frame1) (feature_params init) = []"
  let ?g1 = "cvtColor cv frame1" and ?g2 = "cvtColor cv frame2"
  let ?s1 = "init\<lparr>old_gray := Some ?g1, p0 := Some [], mask := Some (zeros_like cv frame1)\<rparr>"
  have u: "old_gray init = None" by (simp add: init_def init_fields)
  have 1: "process cv init frame1 fps1 = Inr (?s1, putText cv frame1 fps1)"
    using process_first [OF u, of cv frame1 fps1] d by simp
  show "\<exists>s1 out1 s2 out2.
          process cv init frame1 fps1 = Inr (s1, out1) \<and>
          track_state s1 = TRACKING \<and> p0 s1 = Some [] \<and>
          process cv s1 frame2 fps2 = Inr (s2, out2) \<and>
          (case calcOpticalFlowPyrLK cv ?g1 ?g2 [] (lk_params init) of
             None \<Rightarrow>
               track_state s2 = UNINITIALIZED \<and>
               out2 = putText cv (add cv frame2 (zeros_like cv frame1)) fps2 \<and>
               process cv s2 frame3 fps3 = process cv init frame3 fps3
           | Some r \<Rightarrow>
               track_state s2 = TRACKING \<and> p0 s2 = Some [] \<and>
               old_gray s2 = Some ?g2 \<and> mask s2 = Some (zeros_like cv frame1))"
  proof (cases "calcOpticalFlowPyrLK cv ?g1 ?g2 [] (lk_params init)")
    case None
    let ?s2 = "?s1\<lparr>old_gray := None\<rparr>"
    have 2: "process cv ?s1 frame2 fps2 =
        Inr (?s2, putText cv (add cv frame2 (zeros_like cv frame1)) fps2)"
      by (rule process_lost [where og = ?g1 and pts = "[]"]) (simp_all add: None)
    have "process cv ?s2 frame3 fps3 = process cv init frame3 fps3"
      by (simp add: process_def Let_def u)
    with 1 2 None show ?thesis by (simp add: track_state_def)
  next
    case (Some r)
    obtain p1 st where r: "r = (p1, st)" by (cases r)
    with Some assms(2) have e: "p1 = []" "st = []"
      unfolding aligned_def by fastforce+
    have "process cv ?s1 frame2 fps2 =
        Inr (?s1\<lparr>mask := Some (foldl (draw_line cv) (zeros_like cv frame1)
                  (tracks (color ?s1) (good [] []) (good [] []))),
                old_gray := Some ?g2, p0 := Some (good [] [])\<rparr>,
             putText cv (add cv (foldl (draw_circle cv) frame2
                  (tracks (color ?s1) (good [] []) (good [] [])))
                (foldl (draw_line cv) (zeros_like cv frame1)
                  (tracks (color ?s1) (good [] []) (good [] [])))) fps2)"
      by (rule process_partial [where og = ?g1]) (simp_all add: Some r e)
    with 1 Some show ?thesis
      by (simp add: track_state_def good_empty tracks_empty)
  qed
qed

text \<open>
  The third scenario has an aligned tracker and a detector that finds nothing on
  frame 1.
\<close>

theorem no_fatal_error_amended_witness:
  "aligned nothing_found \<and>
   goodFeaturesToTrack nothing_found (cvtColor nothing_found (Frame 1))
     (feature_params (FlowLK_init rows :: (img, img) FlowLK)) = [] \<and>
   (\<exists>self outs. run nothing_found (FlowLK_init rows)
        [(Frame 1, ''fps''), (Frame 2, ''fps''), (Frame 3, ''fps'')] = Inr (self, outs) \<and>
      length outs = length [(Frame 1, ''fps''), (Frame 2, ''fps''), (Frame 3, ''fps'')]) \<and>
   (\<exists>s1 out1 s2 out2.
      process nothing_found (FlowLK_init rows) (Frame 1) ''fps'' = Inr (s1, out1) \<and>
      track_state s1 = TRACKING \<and> p0 s1 = Some [] \<and>
      process nothing_found s1 (Frame 2) ''fps'' = Inr (s2, out2) \<and>
      track_state s2 = TRACKING \<and> p0 s2 = Some [])"
proof -
  have d: "goodFeaturesToTrack nothing_found (cvtColor nothing_found (Frame 1))
     (feature_params (FlowLK_init rows :: (img, img) FlowLK)) = []"
    by (simp add: goodFeaturesToTrack_def nothing_found_def symbolic_def)
  have t: "calcOpticalFlowPyrLK nothing_found (cvtColor nothing_found (Frame 1))
      (cvtColor nothing_found (Frame 2)) [] (lk_params (FlowLK_init rows :: (img, img) FlowLK))
      = Some ([], [])"
    by (simp add: nothing_found_def symbolic_def)
  note w = no_fatal_error_amended [OF nothing_found_aligned, of rows
      "[(Frame 1, ''fps''), (Frame 2, ''fps''), (Frame 3, ''fps'')]" "Frame 1"
      "''fps''" "Frame 2" "''fps''" "Frame 3" "''fps''"]
  have "\<exists>self outs. run nothing_found (FlowLK_init rows)
        [(Frame 1, ''fps''), (Frame 2, ''fps''), (Frame 3, ''fps'')] = Inr (self, outs) \<and>
      length outs = length [(Frame 1, ''fps''), (Frame 2, ''fps''), (Frame 3, ''fps'')]"
    by (rule w [THEN conjunct1])
  moreover from w [THEN conjunct2, rule_format, OF d] have "\<exists>s1 out1 s2 out2.
      process nothing_found (FlowLK_init rows) (Frame 1) ''fps'' = Inr (s1, out1) \<and>
      track_state s1 = TRACKING \<and> p0 s1 = Some [] \<and>
      process nothing_found s1 (Frame 2) ''fps'' = Inr (s2, out2) \<and>
      track_state s2 = TRACKING \<and> p0 s2 = Some []"
    unfolding t option.case by blast
  ultimately show ?thesis using nothing_found_aligned d by blast
qed

text \<open>
  The claim as stated fails in the third and the fourth scenario. The detector finds
  nothing on frame 1 and would find a point on frame 2. After frame 2 the point set is
  still empty and the mask still the one of frame 1 when the tracker returns an empty
  result, and the controller is \<open>UNINITIALIZED\<close> when the tracker reports total
  failure; a reacquisition on frame 2 would have given the point (5,5) and a mask for
  frame 2.
\<close>

theorem no_fatal_error_counterexample:
  "map_sum id (p0 \<circ> fst)
     (run nothing_found (FlowLK_init rows) [(Frame 1, ''fps'')]) = Inr (Some []) \<and>
   map_sum id (p0 \<circ> fst)
     (run nothing_found (FlowLK_init rows) [(Frame 1, ''fps''), (Frame 2, ''fps'')])
     = Inr (Some []) \<and>
   map_sum id (mask \<circ> fst)
     (run nothing_found (FlowLK_init rows) [(Frame 1, ''fps''), (Frame 2, ''fps'')])
     = Inr (Some (ZerosLike (Frame 1))) \<and>
   map_sum id (track_state \<circ> fst)
     (run nothing_tracked (FlowLK_init rows) [(Frame 1, ''fps''), (Frame 2, ''fps'')])
     = Inr UNINITIALIZED \<and>
   map_sum id (p0 \<circ> fst) (process nothing_found (FlowLK_init rows) (Frame 2) ''fps'')
     = Inr (Some [(5, 5)]) \<and>
   map_sum id (mask \<circ> fst) (process nothing_found (FlowLK_init rows) (Frame 2) ''fps'')
     = Inr (Some (ZerosLike (Frame 2)))"
  by (simp add: nothing_found_def nothing_tracked_def symbolic_def process_def
        goodFeaturesToTrack_def select_def track_state_def init_fields)

text \<open>
  Claim C9, the number of points. In every instance that a run from a fresh instance
  reaches in \<open>TRACKING\<close>, a call on which the tracker returns a result and which does
  not raise leaves a point set that is no longer than the one before; the one before
  has at most \<open>maxCorners = 100\<close> points, and so has the new one. The bound at
  acquisition is the detector's contract in the spec.
\<close>

theorem point_count_bounded:
  assumes "run cv (FlowLK_init randint) frames = Inr (self, outs)"
    and "old_gray self = Some og" and "p0 self = Some pts"
    and "calcOpticalFlowPyrLK cv og (cvtColor cv frame) pts (lk_params self) = Some (p1, st)"
    and "process cv self frame fps = Inr (self', out)"
  shows "\<exists>pts'. p0 self' = Some pts' \<and> track_state self' = TRACKING \<and>
           length pts' \<le> length pts \<and>
           length pts \<le> maxCorners (feature_params self) \<and>
           maxCorners (feature_params self) = 100 \<and> length pts' \<le> 100"
proof -
  from reachable_tracking [OF assms(1,2)] assms(3)
  have le: "length pts \<le> 100" and mc: "maxCorners (feature_params self) = 100" by auto
  from assms(2-5) obtain m' where "self' = self\<lparr>mask := Some m',
      old_gray := Some (cvtColor cv frame), p0 := Some (good p1 st)\<rparr>"
    and "length st = length p1" "length st = length pts"
    by (auto simp: process_def Let_def dest!: select_Inr split: sum.splits prod.splits option.splits)
  moreover have "length (good p1 st) \<le> length p1" by (rule length_good)
  ultimately show ?thesis using le mc by (simp add: track_state_def)
qed

text \<open>
  The hypotheses hold in the scenario of the spec after frame 1, with frame 2 the
  frame of the step.
\<close>

theorem point_count_bounded_witness:
  "run scenario (FlowLK_init rows) [(Frame 1, ''fps'')] =
     Inr (acquired, [PutText (Frame 1) ''fps'']) \<and>
   old_gray acquired = Some (Gray (Frame 1)) \<and>
   p0 acquired = Some [(10, 10), (20, 20)] \<and>
   calcOpticalFlowPyrLK scenario (Gray (Frame 1)) (cvtColor scenario (Frame 2))
     [(10, 10), (20, 20)] (lk_params acquired) = Some ([(11, 11), (0, 0)], [1, 0]) \<and>
   process scenario acquired (Frame 2) ''fps'' =
     Inr (tracked,
          PutText (Add (Circle (Frame 2) (11, 11) 5 [0, 1, 2] (- 1))
                       (Line (ZerosLike (Frame 1)) (11, 11) (10, 10) [0, 1, 2] 2)) ''fps'') \<and>
   (\<exists>pts'. p0 tracked = Some pts' \<and> length pts' \<le> length [(10, 10) :: point, (20, 20)] \<and>
      length pts' \<le> 100)"
  using point_count_bounded [OF scenario_run1 acquired_fields(1,2) scenario_track2 scenario_step2]
    scenario_run1 acquired_fields(1,2) scenario_track2 scenario_step2
  by blast

section \<open>The claim about the sketch\<close>

text \<open>
  Claim C10, the sketch's parser. The claim speaks of white-space-separated tokens and
  of every line. \<^verbatim>\<open>strtok\<close> separates at space, carriage return and line feed only,
  and it reads a C string, which ends at the first NUL. What holds instead: for every
  line of fewer than 256 bytes without a NUL byte, whatever the buffer held before and
  whatever follows the line feed, one iteration of \<^verbatim>\<open>loop()\<close> drives the pin \<open>LOW\<close>
  if and only if the first token, tokens being separated by space, carriage return
  and line feed, is exactly \<^verbatim>\<open>DO\<close> and some later token, truncated at its last
  colon when it has one, is the category; otherwise it drives the pin \<open>HIGH\<close>. No
  token after the match revokes it: from state 2 the loop over the tokens ends in
  state 2, whatever is left of the line. Lines of 256 bytes and more are left out here
  (\<open>long_line_off\<close> below says what the sketch does with them).
\<close>

theorem led_follows_message:
  assumes "length instr = INLEN + 1"
    and "length msg < INLEN" and "CHR 0x00 \<notin> set msg" and "CHR 0x0A \<notin> set msg"
  shows "(loop instr (msg @ CHR 0x0A # later) = LOW \<longleftrightarrow> led_on delim msg) \<and>
         (loop instr (msg @ CHR 0x0A # later) = HIGH \<longleftrightarrow> \<not> led_on delim msg) \<and>
         while_tok 2 rest = 2"
proof -
  have stay: "while_tok 2 rest = 2"
    unfolding while_tok_tokens by (rule foldl_switch_other) simp_all
  have r: "readBytesUntil (CHR 0x0A) INLEN (msg @ CHR 0x0A # later) = msg"
    using assms(4,2) by (simp add: received_line)
  have "loop instr (msg @ CHR 0x0A # later) =
      (if while_tok 0 msg = 2 then LOW else HIGH)"
    unfolding loop_def r Let_def buffer_string [OF assms(1-3)] ..
  also have "while_tok 0 msg = 2 \<longleftrightarrow> led_on delim msg"
    unfolding while_tok_tokens led_on_def by (rule foldl_switch_0)
  finally show ?thesis using stay by simp
qed

text \<open>
  A line with a second category that matches satisfies the hypotheses, and turns the
  LED on.
\<close>

theorem led_follows_message_witness:
  "length (replicate 257 (CHR 0x00)) = INLEN + 1 \<and>
   length ''DO mouse:0.2 computer_keyboard:0.7'' < INLEN \<and>
   CHR 0x00 \<notin> set ''DO mouse:0.2 computer_keyboard:0.7'' \<and>
   CHR 0x0A \<notin> set ''DO mouse:0.2 computer_keyboard:0.7'' \<and>
   led_on delim ''DO mouse:0.2 computer_keyboard:0.7'' \<and>
   loop (replicate 257 (CHR 0x00)) (''DO mouse:0.2 computer_keyboard:0.7'' @ CHR 0x0A # ''DO'')
     = LOW"
proof -
  have h: "length (replicate 257 (CHR 0x00)) = INLEN + 1"
    "length ''DO mouse:0.2 computer_keyboard:0.7'' < INLEN"
    "CHR 0x00 \<notin> set ''DO mouse:0.2 computer_keyboard:0.7''"
    "CHR 0x0A \<notin> set ''DO mouse:0.2 computer_keyboard:0.7''"
    by (simp_all add: INLEN_def)
  have on: "led_on delim ''DO mouse:0.2 computer_keyboard:0.7''"
    by code_simp
  from led_follows_message [OF h, where later = "''DO''"] on h show ?thesis by blast
qed

text \<open>
  The claim as stated fails on a line whose tokens are separated by a tab, and on a
  line with a NUL byte before the matching token: both satisfy the condition of the
  claim, and the pin is driven \<open>HIGH\<close>.
\<close>

theorem led_follows_message_counterexample:
  "led_on whitespace (''DO'' @ [CHR 0x09] @ ''computer_keyboard:0.9'') \<and>
   loop (replicate 257 (CHR 0x00))
     (''DO'' @ [CHR 0x09] @ ''computer_keyboard:0.9'' @ [CHR 0x0A]) = HIGH \<and>
   led_on whitespace (''DO mouse'' @ [CHR 0x00] @ '' computer_keyboard:0.9'') \<and>
   led_on delim (''DO mouse'' @ [CHR 0x00] @ '' computer_keyboard:0.9'') \<and>
   loop (replicate 257 (CHR 0x00))
     (''DO mouse'' @ [CHR 0x00] @ '' computer_keyboard:0.9'' @ [CHR 0x0A]) = HIGH"
  by code_simp

text \<open>
  Lines of 256 bytes and more. \<^verbatim>\<open>readBytesUntil\<close> then stores 256 bytes and returns
  256, which the \<^verbatim>\<open>byte len\<close> holds as 0; \<^verbatim>\<open>instr[len] = 0\<close> empties the string,
  no token is seen, and the pin is driven \<open>HIGH\<close> whatever the line says.
\<close>

lemma long_line_off:
  assumes "length instr = INLEN + 1"
    and "INLEN \<le> length (takeWhile (\<lambda>c. c \<noteq> CHR 0x0A) incoming)"
  shows "loop instr incoming = HIGH"
proof -
  let ?r = "readBytesUntil (CHR 0x0A) INLEN incoming"
  from assms(2) have l: "length ?r = 256"
    by (simp add: readBytesUntil_def INLEN_def)
  then obtain c cs where c: "?r = c # cs" by (cases ?r) simp_all
  have "c_str ((?r @ drop (length ?r) instr)[unat (of_nat (length ?r) :: byte) := CHR 0x00]) = []"
    unfolding l unfolding c by (simp add: c_str_def)
  moreover have "while_tok 0 [] = 0"
    by (subst while_tok.simps) (simp add: strtok_def)
  ultimately show ?thesis by (simp add: loop_def Let_def)
qed

text \<open>
  A line of 256 bytes that starts with \<^verbatim>\<open>DO\<close> and the category.
\<close>

theorem long_line_off_witness:
  "length (replicate 257 (CHR 0x00)) = INLEN + 1 \<and>
   INLEN \<le> length (takeWhile (\<lambda>c. c \<noteq> CHR 0x0A)
              (''DO computer_keyboard:0.9'' @ replicate 232 (CHR '' '') @ [CHR 0x0A])) \<and>
   led_on delim (''DO computer_keyboard:0.9'' @ replicate 232 (CHR '' '')) \<and>
   loop (replicate 257 (CHR 0x00))
     (''DO computer_keyboard:0.9'' @ replicate 232 (CHR '' '') @ [CHR 0x0A]) = HIGH"
proof -
  have h: "length (replicate 257 (CHR 0x00)) = INLEN + 1"
    "INLEN \<le> length (takeWhile (\<lambda>c. c \<noteq> CHR 0x0A)
              (''DO computer_keyboard:0.9'' @ replicate 232 (CHR '' '') @ [CHR 0x0A]))"
    by code_simp+
  have on: "led_on delim (''DO computer_keyboard:0.9'' @ replicate 232 (CHR '' ''))"
    by code_simp
  from long_line_off [OF h] h on show ?thesis by blast
qed

end
